theory Spec2Isabelle
  imports Complex_Main "HOL-Library.Char_ord" "HOL-Library.List_Lexorder"
begin

section \<open>Python values and built-ins used by \<^verbatim>\<open>src/app.py\<close>\<close>

text \<open>
  The indicator pipeline of \<^verbatim>\<open>src/app.py\<close> works on Python lists of floats and on
  integer window parameters. Python floats are idealised as \<^typ>\<open>real\<close> (no rounding,
  no infinities, no NaN); Python integers are \<^typ>\<open>int\<close>; the marker \<^verbatim>\<open>None\<close> of an
  indicator series is \<^term>\<open>None\<close> of \<^typ>\<open>real option\<close>. Every exception the code can
  raise is a value of \<open>py_error\<close>, and a function that can raise returns
  \<open>py_error + 'a\<close> with \<open>Inl\<close> for the exception.
\<close>

datatype py_error =
    ZeroDivisionError
  | IndexError
  | KeyError
  | ValueError
  | TypeError
  | NotANumber

type_synonym series = "real option list"

definition bnd :: "py_error + 'a \<Rightarrow> ('a \<Rightarrow> py_error + 'b) \<Rightarrow> py_error + 'b" where
  "bnd m f = (case m of Inl e \<Rightarrow> Inl e | Inr v \<Rightarrow> f v)"

text \<open>\<^verbatim>\<open>a / b\<close> on numbers: raises \<^verbatim>\<open>ZeroDivisionError\<close> when \<^verbatim>\<open>b\<close> is zero.\<close>

definition py_div :: "real \<Rightarrow> real \<Rightarrow> py_error + real" where
  "py_div a b = (if b = 0 then Inl ZeroDivisionError else Inr (a / b))"

text \<open>\<^verbatim>\<open>xs[i]\<close>: a negative index counts from the end, out of range raises.\<close>

definition py_index :: "'a list \<Rightarrow> int \<Rightarrow> py_error + 'a" where
  "py_index xs i =
     (let n = int (length xs); j = (if i < 0 then i + n else i)
      in if 0 \<le> j \<and> j < n then Inr (xs ! nat j) else Inl IndexError)"

text \<open>\<^verbatim>\<open>xs[a:b]\<close>: negative bounds count from the end, both bounds are clamped.\<close>

definition py_slice :: "'a list \<Rightarrow> int \<Rightarrow> int \<Rightarrow> 'a list" where
  "py_slice xs a b =
     (let n = int (length xs);
          lo = (if a < 0 then max 0 (a + n) else min a n);
          hi = (if b < 0 then max 0 (b + n) else min b n)
      in take (nat (hi - lo)) (drop (nat lo) xs))"

text \<open>\<^verbatim>\<open>xs[a:]\<close>.\<close>

definition py_slice_from :: "'a list \<Rightarrow> int \<Rightarrow> 'a list" where
  "py_slice_from xs a = py_slice xs a (int (length xs))"

text \<open>\<^verbatim>\<open>range(a, b)\<close>.\<close>

definition py_range :: "int \<Rightarrow> int \<Rightarrow> int list" where
  "py_range a b = [a..b - 1]"

text \<open>\<^verbatim>\<open>[None] * k\<close>: a non-positive count gives the empty list.\<close>

definition nones :: "int \<Rightarrow> series" where
  "nones k = replicate (nat k) None"

section \<open>Indicator library\<close>

subsection \<open>\<^verbatim>\<open>calculate_sma\<close> (lines 42--53)\<close>

fun sma_loop :: "real list \<Rightarrow> int \<Rightarrow> int list \<Rightarrow> series \<Rightarrow> py_error + series" where
  "sma_loop prices window [] sma = Inr sma"
| "sma_loop prices window (i # idxs) sma =
     (if i < window - 1 then sma_loop prices window idxs (sma @ [None])
      else
        (case py_div (sum_list (py_slice prices (i - window + 1) (i + 1))) (real_of_int window) of
           Inl e \<Rightarrow> Inl e
         | Inr v \<Rightarrow> sma_loop prices window idxs (sma @ [Some v])))"

definition calculate_sma :: "real list \<Rightarrow> int \<Rightarrow> py_error + series" where
  "calculate_sma prices window =
     (if int (length prices) < window then Inr (nones (int (length prices)))
      else sma_loop prices window (py_range 0 (int (length prices))) [])"

subsection \<open>\<^verbatim>\<open>calculate_ema\<close> (lines 55--67)\<close>

fun ema_loop :: "real list \<Rightarrow> real \<Rightarrow> int list \<Rightarrow> series \<Rightarrow> py_error + series" where
  "ema_loop prices multiplier [] ema = Inr ema"
| "ema_loop prices multiplier (i # idxs) ema =
     (case py_index prices i of
        Inl e \<Rightarrow> Inl e
      | Inr p \<Rightarrow>
          (case py_index ema (- 1) of
             Inl e \<Rightarrow> Inl e
           | Inr None \<Rightarrow> Inl TypeError
           | Inr (Some prev) \<Rightarrow>
               ema_loop prices multiplier idxs
                 (ema @ [Some (p * multiplier + prev * (1 - multiplier))])))"

definition calculate_ema :: "real list \<Rightarrow> int \<Rightarrow> py_error + series" where
  "calculate_ema prices window =
     (if int (length prices) < window then Inr (nones (int (length prices)))
      else
        bnd (py_div 2 (real_of_int (window + 1))) (\<lambda>multiplier.
        bnd (py_div (sum_list (py_slice prices 0 window)) (real_of_int window)) (\<lambda>seed.
          ema_loop prices multiplier (py_range window (int (length prices)))
            (nones (window - 1) @ [Some seed]))))"

subsection \<open>\<^verbatim>\<open>calculate_rsi\<close> (lines 69--93)\<close>

definition deltas_of :: "real list \<Rightarrow> real list" where
  "deltas_of prices =
     map (\<lambda>i. prices ! nat i - prices ! nat (i - 1)) (py_range 1 (int (length prices)))"

definition gains_of :: "real list \<Rightarrow> real list" where
  "gains_of deltas = map (\<lambda>delta. if delta > 0 then delta else 0) deltas"

definition losses_of :: "real list \<Rightarrow> real list" where
  "losses_of deltas = map (\<lambda>delta. if delta < 0 then - delta else 0) deltas"

text \<open>
  One pass of the loop body of lines 84--91: the two Wilder updates and the value that
  is appended. The result is the new \<^verbatim>\<open>avg_gain\<close>, the new \<^verbatim>\<open>avg_loss\<close> and the
  appended value.
\<close>

definition rsi_step ::
  "real list \<Rightarrow> real list \<Rightarrow> int \<Rightarrow> int \<Rightarrow> real \<Rightarrow> real \<Rightarrow> py_error + (real \<times> real \<times> real)" where
  "rsi_step gains losses window i avg_gain avg_loss =
     bnd (py_index gains i) (\<lambda>g.
     bnd (py_div (avg_gain * real_of_int (window - 1) + g) (real_of_int window)) (\<lambda>avg_gain'.
     bnd (py_index losses i) (\<lambda>l.
     bnd (py_div (avg_loss * real_of_int (window - 1) + l) (real_of_int window)) (\<lambda>avg_loss'.
       if avg_loss' = 0 then Inr (avg_gain', avg_loss', 100)
       else
         bnd (py_div avg_gain' avg_loss') (\<lambda>rs.
         bnd (py_div 100 (1 + rs)) (\<lambda>q.
           Inr (avg_gain', avg_loss', 100 - q)))))))"

fun rsi_loop ::
  "real list \<Rightarrow> real list \<Rightarrow> int \<Rightarrow> int list \<Rightarrow> real \<Rightarrow> real \<Rightarrow> series \<Rightarrow> py_error + series" where
  "rsi_loop gains losses window [] avg_gain avg_loss rsi = Inr rsi"
| "rsi_loop gains losses window (i # idxs) avg_gain avg_loss rsi =
     (case rsi_step gains losses window i avg_gain avg_loss of
        Inl e \<Rightarrow> Inl e
      | Inr (avg_gain', avg_loss', v) \<Rightarrow>
          rsi_loop gains losses window idxs avg_gain' avg_loss' (rsi @ [Some v]))"

definition calculate_rsi :: "real list \<Rightarrow> int \<Rightarrow> py_error + series" where
  "calculate_rsi prices window =
     (if int (length prices) < window + 1 then Inr (nones (int (length prices)))
      else
        (let deltas = deltas_of prices;
             gains = gains_of deltas;
             losses = losses_of deltas
         in bnd (py_div (sum_list (py_slice gains 0 window)) (real_of_int window)) (\<lambda>avg_gain.
            bnd (py_div (sum_list (py_slice losses 0 window)) (real_of_int window)) (\<lambda>avg_loss.
            bnd (rsi_loop gains losses window (py_range window (int (length gains)))
                   avg_gain avg_loss (nones window)) (\<lambda>rsi.
              Inr (None # rsi))))))"

subsection \<open>\<^verbatim>\<open>calculate_bollinger_bands\<close> (lines 95--113)\<close>

text \<open>
  \<^verbatim>\<open>np.std\<close> of numpy with its default \<^verbatim>\<open>ddof=0\<close>: the square root of the mean of the
  squared deviations from the mean (the population standard deviation). On an empty
  array numpy gives NaN (with a warning) and the caller goes on computing with it; the
  reals have no NaN, so the model stops there with \<^term>\<open>NotANumber\<close>.
\<close>

definition np_std :: "real list \<Rightarrow> py_error + real" where
  "np_std xs =
     (if xs = [] then Inl NotANumber
      else
        (let n = real (length xs); mean = sum_list xs / n
         in Inr (sqrt (sum_list (map (\<lambda>x. (x - mean)\<^sup>2) xs) / n))))"

fun bollinger_loop ::
  "real list \<Rightarrow> int \<Rightarrow> real \<Rightarrow> series \<Rightarrow> int list \<Rightarrow> series \<Rightarrow> series
     \<Rightarrow> py_error + (series \<times> series)" where
  "bollinger_loop prices window num_std sma [] upper_band lower_band =
     Inr (upper_band, lower_band)"
| "bollinger_loop prices window num_std sma (i # idxs) upper_band lower_band =
     (if i < window - 1
      then bollinger_loop prices window num_std sma idxs (upper_band @ [None]) (lower_band @ [None])
      else
        (case np_std (py_slice prices (i - window + 1) (i + 1)) of
           Inl e \<Rightarrow> Inl e
         | Inr std_dev \<Rightarrow>
             (case py_index sma i of
                Inl e \<Rightarrow> Inl e
              | Inr None \<Rightarrow> Inl TypeError
              | Inr (Some m) \<Rightarrow>
                  bollinger_loop prices window num_std sma idxs
                    (upper_band @ [Some (m + num_std * std_dev)])
                    (lower_band @ [Some (m - num_std * std_dev)]))))"

definition calculate_bollinger_bands ::
  "real list \<Rightarrow> int \<Rightarrow> real \<Rightarrow> py_error + (series \<times> series \<times> series)" where
  "calculate_bollinger_bands prices window num_std =
     (if int (length prices) < window
      then Inr (nones (int (length prices)), nones (int (length prices)), nones (int (length prices)))
      else
        bnd (calculate_sma prices window) (\<lambda>sma.
        bnd (bollinger_loop prices window num_std sma (py_range 0 (int (length prices))) [] [])
          (\<lambda>(upper_band, lower_band). Inr (upper_band, sma, lower_band))))"

subsection \<open>\<^verbatim>\<open>calculate_macd\<close> (lines 115--144)\<close>

text \<open>
  The loops of lines 121--125 and 138--142 have the same body: at index \<^verbatim>\<open>i\<close> append
  \<^verbatim>\<open>None\<close> when \<^verbatim>\<open>a[i]\<close> or \<^verbatim>\<open>b[i]\<close> is \<^verbatim>\<open>None\<close> (\<^verbatim>\<open>b[i]\<close> is not read when
  \<^verbatim>\<open>a[i]\<close> is \<^verbatim>\<open>None\<close>), and \<^verbatim>\<open>a[i] - b[i]\<close> otherwise.
\<close>

definition diff_step :: "series \<Rightarrow> series \<Rightarrow> int \<Rightarrow> py_error + real option" where
  "diff_step a b i =
     bnd (py_index a i) (\<lambda>x.
       case x of
         None \<Rightarrow> Inr None
       | Some xv \<Rightarrow>
           bnd (py_index b i) (\<lambda>y.
             case y of
               None \<Rightarrow> Inr None
             | Some yv \<Rightarrow> Inr (Some (xv - yv))))"

fun diff_loop :: "series \<Rightarrow> series \<Rightarrow> int list \<Rightarrow> series \<Rightarrow> py_error + series" where
  "diff_loop a b [] out = Inr out"
| "diff_loop a b (i # idxs) out =
     (case diff_step a b i of
        Inl e \<Rightarrow> Inl e
      | Inr v \<Rightarrow> diff_loop a b idxs (out @ [v]))"

text \<open>\<^verbatim>\<open>[x for x in macd_line if x is not None]\<close>.\<close>

fun defined_values :: "series \<Rightarrow> real list" where
  "defined_values [] = []"
| "defined_values (None # xs) = defined_values xs"
| "defined_values (Some v # xs) = v # defined_values xs"

definition calculate_macd ::
  "real list \<Rightarrow> int \<Rightarrow> int \<Rightarrow> int \<Rightarrow> py_error + (series \<times> series \<times> series)" where
  "calculate_macd prices fast slow signal =
     bnd (calculate_ema prices fast) (\<lambda>ema_fast.
     bnd (calculate_ema prices slow) (\<lambda>ema_slow.
     bnd (diff_loop ema_fast ema_slow (py_range 0 (int (length prices))) []) (\<lambda>macd_line.
       let macd_values = defined_values macd_line
       in bnd (if int (length macd_values) \<ge> signal
               then bnd (calculate_ema macd_values signal) (\<lambda>signal_ema.
                      Inr (nones (int (length macd_line) - int (length macd_values)) @ signal_ema))
               else Inr (nones (int (length macd_line)))) (\<lambda>signal_line.
          bnd (diff_loop macd_line signal_line (py_range 0 (int (length macd_line))) []) (\<lambda>histogram.
            Inr (macd_line, signal_line, histogram))))))"

section \<open>Window builder and orchestrator: \<^verbatim>\<open>process_stock_data\<close> (lines 146--209)\<close>

text \<open>
  A Python \<^verbatim>\<open>dict\<close> with string keys is the list of its items; its keys are unique.
  \<^verbatim>\<open>d[k]\<close> raises \<^verbatim>\<open>KeyError\<close> on a missing key.
\<close>

type_synonym 'v dict = "(string \<times> 'v) list"

definition dict_get :: "'v dict \<Rightarrow> string \<Rightarrow> py_error + 'v" where
  "dict_get d k = (case map_of d k of None \<Rightarrow> Inl KeyError | Some v \<Rightarrow> Inr v)"

text \<open>
  The decoded JSON document handed to \<^verbatim>\<open>process_stock_data\<close>: the entry
  \<^verbatim>\<open>'Time Series (Daily)'\<close> (absent, or a dict from date to a dict from field name to
  the field's text) and the entry \<^verbatim>\<open>'Meta Data'\<close> (absent, or a dict of texts).
\<close>

record api_data =
  time_series_daily :: "(string dict) dict option"
  meta_data :: "string dict option"

text \<open>
  The built-ins \<^verbatim>\<open>float(s)\<close> and \<^verbatim>\<open>int(s)\<close> on a string are parameters \<open>to_float\<close> and
  \<open>to_int\<close> of the model: \<^term>\<open>None\<close> where the built-in raises \<^verbatim>\<open>ValueError\<close>.
\<close>

definition py_parse :: "(string \<Rightarrow> 'a option) \<Rightarrow> string \<Rightarrow> py_error + 'a" where
  "py_parse conv s = (case conv s of None \<Rightarrow> Inl ValueError | Some v \<Rightarrow> Inr v)"

record day_window =
  wb_dates :: "string list"
  wb_prices :: "real list"
  wb_volumes :: "int list"
  wb_highs :: "real list"
  wb_lows :: "real list"
  wb_opens :: "real list"

text \<open>Lines 166--170 for one date: close, volume, high, low, open, read in that order.\<close>

definition parse_day ::
  "(string \<Rightarrow> real option) \<Rightarrow> (string \<Rightarrow> int option) \<Rightarrow> (string dict) dict \<Rightarrow> string
     \<Rightarrow> py_error + (real \<times> int \<times> real \<times> real \<times> real)" where
  "parse_day to_float to_int time_series date =
     bnd (dict_get time_series date) (\<lambda>r1. bnd (dict_get r1 ''4. close'') (\<lambda>s1.
     bnd (py_parse to_float s1) (\<lambda>close.
     bnd (dict_get time_series date) (\<lambda>r2. bnd (dict_get r2 ''5. volume'') (\<lambda>s2.
     bnd (py_parse to_int s2) (\<lambda>volume.
     bnd (dict_get time_series date) (\<lambda>r3. bnd (dict_get r3 ''2. high'') (\<lambda>s3.
     bnd (py_parse to_float s3) (\<lambda>high.
     bnd (dict_get time_series date) (\<lambda>r4. bnd (dict_get r4 ''3. low'') (\<lambda>s4.
     bnd (py_parse to_float s4) (\<lambda>low.
     bnd (dict_get time_series date) (\<lambda>r5. bnd (dict_get r5 ''1. open'') (\<lambda>s5.
     bnd (py_parse to_float s5) (\<lambda>opn.
       Inr (close, volume, high, low, opn))))))))))))))))"

fun build_loop ::
  "(string \<Rightarrow> real option) \<Rightarrow> (string \<Rightarrow> int option) \<Rightarrow> (string dict) dict \<Rightarrow> string list
     \<Rightarrow> day_window \<Rightarrow> py_error + day_window" where
  "build_loop to_float to_int time_series [] w = Inr w"
| "build_loop to_float to_int time_series (date # ds) w =
     (case parse_day to_float to_int time_series date of
        Inl e \<Rightarrow> Inl e
      | Inr (close, volume, high, low, opn) \<Rightarrow>
          build_loop to_float to_int time_series ds
            \<lparr>wb_dates = wb_dates w @ [date],
             wb_prices = wb_prices w @ [close],
             wb_volumes = wb_volumes w @ [volume],
             wb_highs = wb_highs w @ [high],
             wb_lows = wb_lows w @ [low],
             wb_opens = wb_opens w @ [opn]\<rparr>)"

text \<open>Lines 161--162: the 60 greatest date keys, in ascending order.\<close>

definition sorted_dates_of :: "(string dict) dict \<Rightarrow> string list" where
  "sorted_dates_of time_series = rev (take 60 (rev (sort (map fst time_series))))"

text \<open>Lines 153--170: the window builder.\<close>

definition build_window ::
  "(string \<Rightarrow> real option) \<Rightarrow> (string \<Rightarrow> int option) \<Rightarrow> (string dict) dict
     \<Rightarrow> py_error + day_window" where
  "build_window to_float to_int time_series =
     build_loop to_float to_int time_series (sorted_dates_of time_series)
       \<lparr>wb_dates = [], wb_prices = [], wb_volumes = [], wb_highs = [], wb_lows = [],
        wb_opens = []\<rparr>"

record indicators =
  ind_sma_20 :: series
  ind_sma_50 :: series
  ind_ema_12 :: series
  ind_ema_26 :: series
  ind_rsi :: series
  ind_bollinger_upper :: series
  ind_bollinger_middle :: series
  ind_bollinger_lower :: series
  ind_macd_line :: series
  ind_macd_signal :: series
  ind_macd_histogram :: series

text \<open>Lines 173--179: the indicator series over the whole window.\<close>

definition compute_indicators :: "real list \<Rightarrow> py_error + indicators" where
  "compute_indicators prices =
     bnd (calculate_sma prices 20) (\<lambda>sma_20.
     bnd (calculate_sma prices 50) (\<lambda>sma_50.
     bnd (calculate_ema prices 12) (\<lambda>ema_12.
     bnd (calculate_ema prices 26) (\<lambda>ema_26.
     bnd (calculate_rsi prices 14) (\<lambda>rsi.
     bnd (calculate_bollinger_bands prices 20 2) (\<lambda>(bb_upper, bb_middle, bb_lower).
     bnd (calculate_macd prices 12 26 9) (\<lambda>(macd_line, macd_signal, macd_histogram).
       Inr \<lparr>ind_sma_20 = sma_20, ind_sma_50 = sma_50, ind_ema_12 = ema_12,
            ind_ema_26 = ema_26, ind_rsi = rsi,
            ind_bollinger_upper = bb_upper, ind_bollinger_middle = bb_middle,
            ind_bollinger_lower = bb_lower,
            ind_macd_line = macd_line, ind_macd_signal = macd_signal,
            ind_macd_histogram = macd_histogram\<rparr>)))))))"

text \<open>Lines 193--203: every indicator series from \<^verbatim>\<open>start_index\<close> on.\<close>

definition trim_indicators :: "int \<Rightarrow> indicators \<Rightarrow> indicators" where
  "trim_indicators start_index ind =
     \<lparr>ind_sma_20 = py_slice_from (ind_sma_20 ind) start_index,
      ind_sma_50 = py_slice_from (ind_sma_50 ind) start_index,
      ind_ema_12 = py_slice_from (ind_ema_12 ind) start_index,
      ind_ema_26 = py_slice_from (ind_ema_26 ind) start_index,
      ind_rsi = py_slice_from (ind_rsi ind) start_index,
      ind_bollinger_upper = py_slice_from (ind_bollinger_upper ind) start_index,
      ind_bollinger_middle = py_slice_from (ind_bollinger_middle ind) start_index,
      ind_bollinger_lower = py_slice_from (ind_bollinger_lower ind) start_index,
      ind_macd_line = py_slice_from (ind_macd_line ind) start_index,
      ind_macd_signal = py_slice_from (ind_macd_signal ind) start_index,
      ind_macd_histogram = py_slice_from (ind_macd_histogram ind) start_index\<rparr>"

record stock_bundle =
  out_dates :: "string list"
  out_prices :: "real list"
  out_volumes :: "int list"
  out_highs :: "real list"
  out_lows :: "real list"
  out_opens :: "real list"
  out_indicators :: indicators
  out_symbol :: string
  out_last_refreshed :: string

text \<open>
  The result is \<^term>\<open>Inr None\<close> for the \<^verbatim>\<open>return None\<close> of line 209, \<open>Inr (Some b)\<close>
  for the dict of lines 185--207, and \<open>Inl e\<close> for an exception that leaves the function.
\<close>

definition process_stock_data ::
  "(string \<Rightarrow> real option) \<Rightarrow> (string \<Rightarrow> int option) \<Rightarrow> api_data \<Rightarrow> py_error + stock_bundle option" where
  "process_stock_data to_float to_int data =
     (case time_series_daily data of
        None \<Rightarrow> Inr None
      | Some time_series \<Rightarrow>
          bnd (build_window to_float to_int time_series) (\<lambda>w.
          bnd (compute_indicators (wb_prices w)) (\<lambda>ind.
            let display_length = min 30 (int (length (wb_dates w)));
                start_index = int (length (wb_dates w)) - display_length
            in bnd (case meta_data data of None \<Rightarrow> Inl KeyError | Some m \<Rightarrow> Inr m) (\<lambda>meta.
               bnd (dict_get meta ''2. Symbol'') (\<lambda>symbol.
               bnd (dict_get meta ''3. Last Refreshed'') (\<lambda>last_refreshed.
                 Inr (Some
                   \<lparr>out_dates = py_slice_from (wb_dates w) start_index,
                    out_prices = py_slice_from (wb_prices w) start_index,
                    out_volumes = py_slice_from (wb_volumes w) start_index,
                    out_highs = py_slice_from (wb_highs w) start_index,
                    out_lows = py_slice_from (wb_lows w) start_index,
                    out_opens = py_slice_from (wb_opens w) start_index,
                    out_indicators = trim_indicators start_index ind,
                    out_symbol = symbol,
                    out_last_refreshed = last_refreshed\<rparr>)))))))"

section \<open>Quantities named by the specification\<close>

text \<open>
  The specification describes the indicators by formulas. These definitions follow its
  words, not the code; the theorems below relate the code to them.
\<close>

text \<open>
  Wilder smoothing (specification, section 4.2, RSI): the seed is the mean of the first
  \<open>window\<close> entries, and each later entry \<open>x\<close> turns the average \<open>avg\<close> into
  \<open>(avg * (window - 1) + x) / window\<close>. \<open>spec_wilder_avg xs window k\<close> is the average
  after \<open>k\<close> smoothing steps.
\<close>

fun spec_wilder_avg :: "real list \<Rightarrow> int \<Rightarrow> nat \<Rightarrow> real" where
  "spec_wilder_avg xs window 0 = sum_list (take (nat window) xs) / real_of_int window"
| "spec_wilder_avg xs window (Suc k) =
     (spec_wilder_avg xs window k * real_of_int (window - 1) + xs ! (nat window + k))
       / real_of_int window"

text \<open>
  The RSI of an average gain and an average loss: 100 when the average loss is exactly
  zero, \<open>100 - 100 / (1 + avgGain / avgLoss)\<close> otherwise.
\<close>

definition spec_rsi_value :: "real \<Rightarrow> real \<Rightarrow> real" where
  "spec_rsi_value avg_gain avg_loss =
     (if avg_loss = 0 then 100 else 100 - 100 / (1 + avg_gain / avg_loss))"

text \<open>The population standard deviation of a non-empty list.\<close>

definition spec_population_std_dev :: "real list \<Rightarrow> real" where
  "spec_population_std_dev xs =
     sqrt ((\<Sum>x\<leftarrow>xs. (x - sum_list xs / real (length xs))\<^sup>2) / real (length xs))"

text \<open>The trailing window \<open>prices[i-window+1..i]\<close> (both ends included).\<close>

definition spec_trailing_window :: "real list \<Rightarrow> int \<Rightarrow> nat \<Rightarrow> real list" where
  "spec_trailing_window prices window i = take (nat window) (drop (Suc i - nat window) prices)"

text \<open>
  The SMA value at index \<open>i\<close>: the arithmetic mean of the \<open>window\<close> most recent prices
  ending at \<open>i\<close>.
\<close>

definition spec_mean_at :: "real list \<Rightarrow> int \<Rightarrow> nat \<Rightarrow> real" where
  "spec_mean_at prices window i =
     sum_list (spec_trailing_window prices window i) / real_of_int window"

text \<open>A pointwise difference that is undefined when either operand is undefined.\<close>

fun spec_pointwise_diff :: "real option \<Rightarrow> real option \<Rightarrow> real option" where
  "spec_pointwise_diff (Some x) (Some y) = Some (x - y)"
| "spec_pointwise_diff _ _ = None"

text \<open>The number of undefined entries of a series.\<close>

definition undefined_count :: "series \<Rightarrow> nat" where
  "undefined_count xs = length (filter (\<lambda>x. x = None) xs)"

text \<open>
  The EMA of the specification (section 4.2). \<open>spec_ema_value xs window j\<close> is the value
  at position \<open>window - 1 + j\<close>: the seed at \<open>j = 0\<close> is the mean of the first
  \<open>window\<close> entries, and each later value is \<open>x * k + previous * (1 - k)\<close> with
  \<open>k = 2 / (window + 1)\<close>. The series is undefined on the first \<open>window - 1\<close>
  positions, and everywhere when the input is shorter than the window.
\<close>

fun spec_ema_value :: "real list \<Rightarrow> int \<Rightarrow> nat \<Rightarrow> real" where
  "spec_ema_value xs window 0 = sum_list (take (nat window) xs) / real_of_int window"
| "spec_ema_value xs window (Suc j) =
     xs ! (nat window + j) * (2 / real_of_int (window + 1))
       + spec_ema_value xs window j * (1 - 2 / real_of_int (window + 1))"

definition spec_ema :: "real list \<Rightarrow> int \<Rightarrow> series" where
  "spec_ema xs window =
     (if int (length xs) < window then replicate (length xs) None
      else replicate (nat window - 1) None
           @ map (\<lambda>j. Some (spec_ema_value xs window j)) [0..<length xs - (nat window - 1)])"

text \<open>The MACD line: the pointwise difference of the fast and the slow EMA.\<close>

definition spec_macd_line :: "real list \<Rightarrow> int \<Rightarrow> int \<Rightarrow> series" where
  "spec_macd_line prices fast slow =
     map2 spec_pointwise_diff (spec_ema prices fast) (spec_ema prices slow)"

text \<open>The compacted sequence of a series: its defined values, in order.\<close>

definition spec_compact :: "series \<Rightarrow> real list" where
  "spec_compact xs = map the (filter (\<lambda>x. x \<noteq> None) xs)"

text \<open>
  A selected date is malformed (specification, section 4.1) when its record lacks one of
  the required fields or holds a text there that the numeric conversion rejects: the
  float conversion for open, high, low and close, the integer conversion for volume.
\<close>

definition spec_field_ok :: "(string \<Rightarrow> 'a option) \<Rightarrow> string dict \<Rightarrow> string \<Rightarrow> bool" where
  "spec_field_ok conv r field =
     (case map_of r field of None \<Rightarrow> False | Some s \<Rightarrow> conv s \<noteq> None)"

definition spec_malformed ::
  "(string \<Rightarrow> real option) \<Rightarrow> (string \<Rightarrow> int option) \<Rightarrow> (string dict) dict \<Rightarrow> string \<Rightarrow> bool" where
  "spec_malformed to_float to_int time_series date =
     (case map_of time_series date of
        None \<Rightarrow> True
      | Some r \<Rightarrow>
          \<not> (spec_field_ok to_float r ''1. open'' \<and> spec_field_ok to_float r ''2. high''
             \<and> spec_field_ok to_float r ''3. low'' \<and> spec_field_ok to_float r ''4. close''
             \<and> spec_field_ok to_int r ''5. volume''))"

text \<open>The eleven indicator series of a bundle, and the lengths of all its series.\<close>

definition indicator_series :: "indicators \<Rightarrow> series list" where
  "indicator_series ind =
     [ind_sma_20 ind, ind_sma_50 ind, ind_ema_12 ind, ind_ema_26 ind, ind_rsi ind,
      ind_bollinger_upper ind, ind_bollinger_middle ind, ind_bollinger_lower ind,
      ind_macd_line ind, ind_macd_signal ind, ind_macd_histogram ind]"

definition series_lengths :: "stock_bundle \<Rightarrow> nat list" where
  "series_lengths b =
     [length (out_dates b), length (out_prices b), length (out_volumes b),
      length (out_highs b), length (out_lows b), length (out_opens b)]
     @ map length (indicator_series (out_indicators b))"

section \<open>Facts about the built-ins\<close>

lemma bnd_Inr [simp]: "bnd (Inr v) f = f v"
  by (simp add: bnd_def)

lemma bnd_Inl [simp]: "bnd (Inl e) f = Inl e"
  by (simp add: bnd_def)

lemma py_div_nonzero [simp]: "b \<noteq> 0 \<Longrightarrow> py_div a b = Inr (a / b)"
  by (simp add: py_div_def)

lemma py_div_zero [simp]: "py_div a 0 = Inl ZeroDivisionError"
  by (simp add: py_div_def)

lemma py_index_in_range:
  "0 \<le> i \<Longrightarrow> i < int (length xs) \<Longrightarrow> py_index xs i = Inr (xs ! nat i)"
  by (simp add: py_index_def)

lemma py_index_last [simp]: "py_index (xs @ [x]) (- 1) = Inr x"
  by (simp add: py_index_def Let_def nat_add_distrib)

lemma py_slice_nonneg:
  "0 \<le> a \<Longrightarrow> 0 \<le> b \<Longrightarrow> py_slice xs a b = take (nat b - nat a) (drop (nat a) xs)"
proof -
  assume a: "0 \<le> a" and b: "0 \<le> b"
  let ?n = "int (length xs)"
  have "py_slice xs a b = take (nat (min b ?n - min a ?n)) (drop (nat (min a ?n)) xs)"
    using a b by (simp add: py_slice_def Let_def)
  also have "\<dots> = take (nat b - nat a) (drop (nat a) xs)"
  proof (cases "a \<le> ?n")
    case True
    then have "min a ?n = a" by simp
    moreover have "take (nat (min b ?n - a)) (drop (nat a) xs) = take (nat b - nat a) (drop (nat a) xs)"
    proof (cases "b \<le> ?n")
      case True
      then show ?thesis using a b by (simp add: nat_diff_distrib')
    next
      case False
      then have "length (drop (nat a) xs) \<le> nat (min b ?n - a)" "length (drop (nat a) xs) \<le> nat b - nat a"
        using a b \<open>a \<le> ?n\<close> by auto
      then show ?thesis by simp
    qed
    ultimately show ?thesis by simp
  next
    case False
    then have "drop (nat (min a ?n)) xs = []" "drop (nat a) xs = []" by auto
    then show ?thesis by simp
  qed
  finally show ?thesis .
qed

lemma py_slice_prefix: "0 \<le> w \<Longrightarrow> py_slice xs 0 w = take (nat w) xs"
  by (simp add: py_slice_nonneg)

lemma py_slice_from_nonneg: "0 \<le> a \<Longrightarrow> py_slice_from xs a = drop (nat a) xs"
  by (simp add: py_slice_from_def py_slice_nonneg)

lemma length_py_range [simp]: "length (py_range a b) = nat (b - a)"
  by (simp add: py_range_def)

lemma nth_py_range: "k < nat (b - a) \<Longrightarrow> py_range a b ! k = a + int k"
  by (simp add: py_range_def)

lemma set_py_range: "set (py_range a b) = {a..<b}"
  by (auto simp: py_range_def)

lemma length_nones [simp]: "length (nones k) = nat k"
  by (simp add: nones_def)

section \<open>The moving averages\<close>

lemma sma_loop_eq:
  "window \<noteq> 0 \<Longrightarrow>
   sma_loop prices window idxs acc =
     Inr (acc @ map (\<lambda>i. if i < window - 1 then None
                           else Some (sum_list (py_slice prices (i - window + 1) (i + 1)) / real_of_int window)) idxs)"
  by (induction idxs arbitrary: acc) simp_all

lemma calculate_sma_eq:
  "window \<noteq> 0 \<Longrightarrow>
   calculate_sma prices window =
     Inr (if int (length prices) < window then nones (int (length prices))
          else map (\<lambda>i. if i < window - 1 then None
                          else Some (sum_list (py_slice prices (i - window + 1) (i + 1)) / real_of_int window))
                 (py_range 0 (int (length prices))))"
  by (simp add: calculate_sma_def sma_loop_eq)

lemma ema_loop_ok:
  "\<forall>i\<in>set idxs. 0 \<le> i \<and> i < int (length prices) \<Longrightarrow>
   \<exists>ys. ema_loop prices m idxs (acc @ [Some v]) = Inr (acc @ Some v # ys)
        \<and> length ys = length idxs \<and> None \<notin> set ys"
proof (induction idxs arbitrary: acc v)
  case Nil
  then show ?case by simp
next
  case (Cons i idxs)
  then have i: "0 \<le> i" "i < int (length prices)" by simp_all
  let ?v = "prices ! nat i * m + v * (1 - m)"
  from Cons.prems have "\<forall>i\<in>set idxs. 0 \<le> i \<and> i < int (length prices)" by simp
  from Cons.IH [OF this, of "acc @ [Some v]" ?v]
  obtain ys where ys: "ema_loop prices m idxs ((acc @ [Some v]) @ [Some ?v]) = Inr ((acc @ [Some v]) @ Some ?v # ys)"
      "length ys = length idxs" "None \<notin> set ys"
    by blast
  have "ema_loop prices m (i # idxs) (acc @ [Some v]) = Inr (acc @ Some v # (Some ?v # ys))"
    using i ys(1) by (simp add: py_index_in_range)
  moreover have "length (Some ?v # ys) = length (i # idxs)" using ys(2) by simp
  moreover have "None \<notin> set (Some ?v # ys)" using ys(3) by simp
  ultimately show ?case by blast
qed

lemma calculate_ema_long:
  assumes "0 < window" "window \<le> int (length prices)"
  shows "\<exists>ys. calculate_ema prices window =
            Inr (nones (window - 1) @ Some (sum_list (take (nat window) prices) / real_of_int window) # ys)
          \<and> length ys = nat (int (length prices) - window) \<and> None \<notin> set ys"
proof -
  have "\<forall>i\<in>set (py_range window (int (length prices))). 0 \<le> i \<and> i < int (length prices)"
    using assms by (auto simp: set_py_range)
  from ema_loop_ok [OF this, of "2 / real_of_int (window + 1)" "nones (window - 1)"
      "sum_list (take (nat window) prices) / real_of_int window"]
  show ?thesis using assms
    by (simp add: calculate_ema_def py_slice_prefix)
qed

lemma calculate_ema_short:
  "int (length prices) < window \<Longrightarrow> calculate_ema prices window = Inr (nones (int (length prices)))"
  by (simp add: calculate_ema_def)

lemma calculate_ema_total:
  assumes "0 < window"
  shows "\<exists>e. calculate_ema prices window = Inr e \<and> length e = length prices"
proof (cases "int (length prices) < window")
  case True
  then show ?thesis by (simp add: calculate_ema_short)
next
  case False
  with assms calculate_ema_long [of window prices]
  obtain ys where "calculate_ema prices window =
            Inr (nones (window - 1) @ Some (sum_list (take (nat window) prices) / real_of_int window) # ys)"
     "length ys = nat (int (length prices) - window)" by auto
  then show ?thesis using assms False by (auto simp: nat_diff_distrib')
qed

section \<open>The relative strength index\<close>

lemma py_index_mem: "py_index xs i = Inr x \<Longrightarrow> x \<in> set xs"
  by (auto simp: py_index_def Let_def split: if_splits)

lemma length_deltas_of [simp]: "length (deltas_of prices) = length prices - 1"
  by (simp add: deltas_of_def)

lemma length_gains_of [simp]: "length (gains_of ds) = length ds"
  by (simp add: gains_of_def)

lemma length_losses_of [simp]: "length (losses_of ds) = length ds"
  by (simp add: losses_of_def)

lemma gains_of_nonneg: "x \<in> set (gains_of ds) \<Longrightarrow> 0 \<le> x"
  by (auto simp: gains_of_def)

lemma losses_of_nonneg: "x \<in> set (losses_of ds) \<Longrightarrow> 0 \<le> x"
  by (auto simp: losses_of_def)

lemma spec_rsi_value_range:
  assumes "0 \<le> ag * al"
  shows "0 \<le> spec_rsi_value ag al \<and> spec_rsi_value ag al \<le> 100"
proof (cases "al = 0")
  case True
  then show ?thesis by (simp add: spec_rsi_value_def)
next
  case False
  have "0 \<le> ag / al" using assms by (simp add: zero_le_divide_iff zero_le_mult_iff)
  then have pos: "1 \<le> 1 + ag / al" by simp
  then have "100 / (1 + ag / al) \<le> 100 / 1"
    by (intro divide_left_mono) simp_all
  moreover have "0 \<le> 100 / (1 + ag / al)" using pos by simp
  ultimately show ?thesis using False by (simp add: spec_rsi_value_def)
qed

lemma wilder_update_sign:
  fixes avg x :: real and w :: int
  assumes "w \<noteq> 0" "0 \<le> avg * real_of_int w" "0 \<le> x"
  shows "0 \<le> (avg * real_of_int (w - 1) + x) / real_of_int w * real_of_int w"
proof -
  have "0 \<le> avg * real_of_int (w - 1)"
  proof (cases "0 < w")
    case True
    then have "0 \<le> avg" "0 \<le> real_of_int (w - 1)" using assms(2) by (simp_all add: zero_le_mult_iff)
    then show ?thesis by simp
  next
    case False
    then have "w < 0" using assms(1) by simp
    then have "avg \<le> 0" "real_of_int (w - 1) \<le> 0" using assms(2) by (simp_all add: zero_le_mult_iff)
    then show ?thesis by (simp add: zero_le_mult_iff)
  qed
  then show ?thesis using assms by simp
qed

lemma rsi_step_cases:
  assumes "rsi_step gains losses w i ag al = Inr (ag', al', v)"
  shows "\<exists>g l. py_index gains i = Inr g \<and> py_index losses i = Inr l \<and> w \<noteq> 0
           \<and> ag' = (ag * real_of_int (w - 1) + g) / real_of_int w
           \<and> al' = (al * real_of_int (w - 1) + l) / real_of_int w
           \<and> (al' \<noteq> 0 \<longrightarrow> 1 + ag' / al' \<noteq> 0)
           \<and> v = spec_rsi_value ag' al'"
  using assms
  by (auto simp: rsi_step_def bnd_def py_div_def spec_rsi_value_def split: sum.splits if_splits)

lemma rsi_step_inv:
  assumes step: "rsi_step gains losses w i ag al = Inr (ag', al', v)"
    and g: "\<forall>x\<in>set gains. 0 \<le> x" and l: "\<forall>x\<in>set losses. 0 \<le> x"
    and ag: "0 \<le> ag * real_of_int w" and al: "0 \<le> al * real_of_int w"
  shows "0 \<le> ag' * real_of_int w \<and> 0 \<le> al' * real_of_int w
         \<and> 0 \<le> v \<and> v \<le> 100 \<and> (al' = 0 \<longrightarrow> v = 100)"
proof -
  from rsi_step_cases [OF step] obtain gv lv where
    gv: "py_index gains i = Inr gv" and lv: "py_index losses i = Inr lv" and w: "w \<noteq> 0"
    and ag': "ag' = (ag * real_of_int (w - 1) + gv) / real_of_int w"
    and al': "al' = (al * real_of_int (w - 1) + lv) / real_of_int w"
    and v: "v = spec_rsi_value ag' al'"
    by blast
  have "0 \<le> gv" "0 \<le> lv" using g l py_index_mem [OF gv] py_index_mem [OF lv] by auto
  then have a: "0 \<le> ag' * real_of_int w" and b: "0 \<le> al' * real_of_int w"
    unfolding ag' al' using wilder_update_sign [OF w ag] wilder_update_sign [OF w al] by auto
  have "0 \<le> (ag' * real_of_int w) * (al' * real_of_int w)" using a b by simp
  then have "0 \<le> (ag' * al') * (real_of_int w * real_of_int w)" by (simp add: mult_ac)
  moreover have "0 < real_of_int w * real_of_int w" using w by (auto simp: zero_less_mult_iff)
  ultimately have "0 \<le> ag' * al'" by (simp add: zero_le_mult_iff)
  from spec_rsi_value_range [OF this] a b v show ?thesis
    by (simp add: spec_rsi_value_def)
qed

lemma rsi_loop_range:
  assumes "rsi_loop gains losses w idxs ag al acc = Inr r"
    and "\<forall>x\<in>set gains. 0 \<le> x" and "\<forall>x\<in>set losses. 0 \<le> x"
    and "0 \<le> ag * real_of_int w" and "0 \<le> al * real_of_int w"
    and "\<forall>v. Some v \<in> set acc \<longrightarrow> 0 \<le> v \<and> v \<le> 100"
  shows "\<forall>v. Some v \<in> set r \<longrightarrow> 0 \<le> v \<and> v \<le> 100"
  using assms
proof (induction idxs arbitrary: ag al acc)
  case Nil
  then show ?case by simp
next
  case (Cons i idxs)
  from Cons.prems(1) obtain ag' al' v where
    step: "rsi_step gains losses w i ag al = Inr (ag', al', v)"
    and rest: "rsi_loop gains losses w idxs ag' al' (acc @ [Some v]) = Inr r"
    by (auto split: sum.splits)
  from rsi_step_inv [OF step Cons.prems(2,3,4,5)]
  have inv: "0 \<le> ag' * real_of_int w" "0 \<le> al' * real_of_int w" "0 \<le> v" "v \<le> 100"
    by simp_all
  have "\<forall>u. Some u \<in> set (acc @ [Some v]) \<longrightarrow> 0 \<le> u \<and> u \<le> 100"
    using Cons.prems(6) inv(3,4) by auto
  from Cons.IH [OF rest Cons.prems(2,3) inv(1,2) this] show ?case .
qed

lemma sum_list_nonneg_take:
  fixes xs :: "real list"
  shows "\<forall>x\<in>set xs. 0 \<le> x \<Longrightarrow> 0 \<le> sum_list (py_slice xs a b)"
proof -
  assume h: "\<forall>x\<in>set xs. 0 \<le> x"
  have "set (py_slice xs a b) \<subseteq> set xs"
    unfolding py_slice_def Let_def
    by (meson set_take_subset set_drop_subset subset_trans)
  then show ?thesis using h by (intro sum_list_nonneg) auto
qed

lemma calculate_rsi_range:
  assumes "calculate_rsi prices w = Inr r"
  shows "\<forall>v. Some v \<in> set r \<longrightarrow> 0 \<le> v \<and> v \<le> 100"
proof (cases "int (length prices) < w + 1")
  case True
  then have "r = nones (int (length prices))" using assms by (simp add: calculate_rsi_def)
  then show ?thesis by (simp add: nones_def)
next
  case False
  let ?g = "gains_of (deltas_of prices)" and ?l = "losses_of (deltas_of prices)"
  let ?ag = "sum_list (py_slice ?g 0 w) / real_of_int w"
  let ?al = "sum_list (py_slice ?l 0 w) / real_of_int w"
  from assms False have w: "w \<noteq> 0"
    by (auto simp: calculate_rsi_def Let_def bnd_def py_div_def split: if_splits sum.splits)
  from assms False w obtain body where
    loop: "rsi_loop ?g ?l w (py_range w (int (length ?g))) ?ag ?al (nones w) = Inr body"
    and r: "r = None # body"
    by (auto simp: calculate_rsi_def Let_def bnd_def split: sum.splits)
  have g: "\<forall>x\<in>set ?g. 0 \<le> x" and l: "\<forall>x\<in>set ?l. 0 \<le> x"
    using gains_of_nonneg losses_of_nonneg by blast+
  have "0 \<le> ?ag * real_of_int w" "0 \<le> ?al * real_of_int w"
    using w sum_list_nonneg_take [OF g] sum_list_nonneg_take [OF l] by simp_all
  moreover have "\<forall>v. Some v \<in> set (nones w) \<longrightarrow> 0 \<le> v \<and> v \<le> 100"
    by (simp add: nones_def)
  ultimately have "\<forall>v. Some v \<in> set body \<longrightarrow> 0 \<le> v \<and> v \<le> 100"
    using rsi_loop_range [OF loop g l] by blast
  then show ?thesis using r by simp
qed

lemma py_range_Cons: "a < b \<Longrightarrow> py_range a b = a # py_range (a + 1) b"
  by (simp add: py_range_def upto_rec1)

lemma py_range_empty [simp]: "b \<le> a \<Longrightarrow> py_range a b = []"
  by (simp add: py_range_def)

lemma spec_wilder_avg_nonneg:
  assumes "0 < w" and "\<forall>x\<in>set xs. 0 \<le> x" and "nat w + k \<le> length xs"
  shows "0 \<le> spec_wilder_avg xs w k"
  using assms(3)
proof (induction k)
  case 0
  have "set (take (nat w) xs) \<subseteq> set xs" by (rule set_take_subset)
  then have "0 \<le> sum_list (take (nat w) xs)" using assms(2) by (intro sum_list_nonneg) auto
  then show ?case using assms(1) by simp
next
  case (Suc k)
  then have "0 \<le> spec_wilder_avg xs w k" by simp
  moreover have "0 \<le> xs ! (nat w + k)" using Suc.prems assms(2) by simp
  ultimately show ?case using assms(1) by simp
qed

lemma rsi_step_pos:
  assumes w: "0 < w" and i: "0 \<le> i" "i < int (length gains)"
    and len: "length losses = length gains"
    and g: "\<forall>x\<in>set gains. 0 \<le> x" and l: "\<forall>x\<in>set losses. 0 \<le> x"
    and ag: "0 \<le> ag" and al: "0 \<le> al"
  shows "rsi_step gains losses w i ag al =
           Inr ((ag * real_of_int (w - 1) + gains ! nat i) / real_of_int w,
                (al * real_of_int (w - 1) + losses ! nat i) / real_of_int w,
                spec_rsi_value ((ag * real_of_int (w - 1) + gains ! nat i) / real_of_int w)
                               ((al * real_of_int (w - 1) + losses ! nat i) / real_of_int w))"
proof -
  let ?ag = "(ag * real_of_int (w - 1) + gains ! nat i) / real_of_int w"
  let ?al = "(al * real_of_int (w - 1) + losses ! nat i) / real_of_int w"
  have gi: "0 \<le> gains ! nat i" and li: "0 \<le> losses ! nat i" using i len g l by simp_all
  have ag': "0 \<le> ?ag" and al': "0 \<le> ?al" using w ag al gi li by simp_all
  have nz: "?al \<noteq> 0 \<Longrightarrow> 1 + ?ag / ?al \<noteq> 0"
  proof -
    assume "?al \<noteq> 0"
    have "0 \<le> ?ag / ?al" using ag' al' by (rule divide_nonneg_nonneg)
    then show ?thesis by linarith
  qed
  have w0: "real_of_int w \<noteq> 0" using w by simp
  show ?thesis
  proof (cases "?al = 0")
    case True
    then show ?thesis
      using i len w0 unfolding rsi_step_def spec_rsi_value_def
      by (simp add: py_index_in_range)
  next
    case False
    with nz have "1 + ?ag / ?al \<noteq> 0" by blast
    with False show ?thesis
      using i len w0 unfolding rsi_step_def spec_rsi_value_def
      by (simp add: py_index_in_range)
  qed
qed

lemma rsi_loop_closed:
  assumes w: "0 < w" and len: "length losses = length gains"
    and g: "\<forall>x\<in>set gains. 0 \<le> x" and l: "\<forall>x\<in>set losses. 0 \<le> x"
    and d: "nat w + k + d = length gains"
  shows "rsi_loop gains losses w (py_range (w + int k) (int (length gains)))
           (spec_wilder_avg gains w k) (spec_wilder_avg losses w k) acc =
         Inr (acc @ map (\<lambda>j. Some (spec_rsi_value (spec_wilder_avg gains w (Suc j))
                                                  (spec_wilder_avg losses w (Suc j))))
                     [k..<k + d])"
  using d
proof (induction d arbitrary: k acc)
  case 0
  then have "int (length gains) \<le> w + int k" using w by linarith
  then show ?case by simp
next
  case (Suc d)
  let ?i = "w + int k"
  have lt: "?i < int (length gains)" using Suc.prems w by linarith
  have i0: "0 \<le> ?i" using w by simp
  have ni: "nat ?i = nat w + k" using w by (simp add: nat_add_distrib)
  have ag: "0 \<le> spec_wilder_avg gains w k" and al: "0 \<le> spec_wilder_avg losses w k"
    using spec_wilder_avg_nonneg [OF w g, of k] spec_wilder_avg_nonneg [OF w l, of k] Suc.prems len
    by simp_all
  have step: "rsi_step gains losses w ?i (spec_wilder_avg gains w k) (spec_wilder_avg losses w k) =
      Inr (spec_wilder_avg gains w (Suc k), spec_wilder_avg losses w (Suc k),
           spec_rsi_value (spec_wilder_avg gains w (Suc k)) (spec_wilder_avg losses w (Suc k)))"
    using rsi_step_pos [OF w i0 lt len g l ag al] by (simp add: ni)
  have next_range: "py_range ?i (int (length gains)) = ?i # py_range (w + int (Suc k)) (int (length gains))"
  proof -
    have "w + int (Suc k) = ?i + 1" by simp
    then show ?thesis using py_range_Cons [OF lt] by (simp only:)
  qed
  have d': "nat w + Suc k + d = length gains" using Suc.prems by simp
  have ivl: "[k..<k + Suc d] = k # [Suc k..<Suc k + d]"
    by (simp add: upt_conv_Cons)
  show ?case
    unfolding next_range ivl
    using step Suc.IH [OF d'] by simp
qed

lemma calculate_rsi_short:
  "int (length prices) < w + 1 \<Longrightarrow> calculate_rsi prices w = Inr (nones (int (length prices)))"
  by (simp add: calculate_rsi_def)

lemma calculate_rsi_long:
  assumes w: "0 < w" and n: "w + 1 \<le> int (length prices)"
  shows "calculate_rsi prices w =
           Inr (None # nones w @
                map (\<lambda>j. Some (spec_rsi_value
                                 (spec_wilder_avg (gains_of (deltas_of prices)) w (Suc j))
                                 (spec_wilder_avg (losses_of (deltas_of prices)) w (Suc j))))
                    [0..<length prices - 1 - nat w])"
proof -
  let ?g = "gains_of (deltas_of prices)" and ?l = "losses_of (deltas_of prices)"
  have g: "\<forall>x\<in>set ?g. 0 \<le> x" and l: "\<forall>x\<in>set ?l. 0 \<le> x"
    using gains_of_nonneg losses_of_nonneg by blast+
  have len: "length ?l = length ?g" by simp
  have d: "nat w + 0 + (length prices - 1 - nat w) = length ?g" using w n by simp
  have w0: "real_of_int w \<noteq> 0" using w by simp
  have seed: "sum_list (py_slice ?g 0 w) / real_of_int w = spec_wilder_avg ?g w 0"
             "sum_list (py_slice ?l 0 w) / real_of_int w = spec_wilder_avg ?l w 0"
    using w by (simp_all add: py_slice_prefix)
  have L: "rsi_loop ?g ?l w (py_range w (int (length ?g)))
           (spec_wilder_avg ?g w 0) (spec_wilder_avg ?l w 0) (nones w) =
         Inr (nones w @ map (\<lambda>j. Some (spec_rsi_value (spec_wilder_avg ?g w (Suc j))
                                                  (spec_wilder_avg ?l w (Suc j))))
                     [0..<length prices - 1 - nat w])"
    using rsi_loop_closed [OF w len g l d, of "nones w"] by (simp del: spec_wilder_avg.simps)
  have "calculate_rsi prices w =
          bnd (rsi_loop ?g ?l w (py_range w (int (length ?g)))
                 (sum_list (py_slice ?g 0 w) / real_of_int w)
                 (sum_list (py_slice ?l 0 w) / real_of_int w) (nones w))
              (\<lambda>rsi. Inr (None # rsi))"
    using n w0 by (simp add: calculate_rsi_def Let_def)
  also have "\<dots> =
          bnd (rsi_loop ?g ?l w (py_range w (int (length ?g)))
                 (spec_wilder_avg ?g w 0) (spec_wilder_avg ?l w 0) (nones w))
              (\<lambda>rsi. Inr (None # rsi))"
    by (simp only: seed)
  also have "\<dots> = Inr (None # nones w @
                map (\<lambda>j. Some (spec_rsi_value (spec_wilder_avg ?g w (Suc j))
                                               (spec_wilder_avg ?l w (Suc j))))
                    [0..<length prices - 1 - nat w])"
    by (simp only: L bnd_Inr)
  finally show ?thesis .
qed

section \<open>Bollinger bands\<close>

lemma np_std_nonempty: "xs \<noteq> [] \<Longrightarrow> np_std xs = Inr (spec_population_std_dev xs)"
  by (simp add: np_std_def spec_population_std_dev_def Let_def)

lemma spec_population_std_dev_nonneg: "0 \<le> spec_population_std_dev xs"
proof -
  have "0 \<le> (\<Sum>x\<leftarrow>xs. (x - sum_list xs / real (length xs))\<^sup>2)"
    by (rule sum_list_nonneg) auto
  then show ?thesis by (simp add: spec_population_std_dev_def)
qed

lemma py_slice_trailing:
  assumes "0 < w" and "w - 1 \<le> i" and "i < int (length prices)"
  shows "py_slice prices (i - w + 1) (i + 1) = spec_trailing_window prices w (nat i)"
    and "length (py_slice prices (i - w + 1) (i + 1)) = nat w"
proof -
  have a: "0 \<le> i - w + 1" "0 \<le> i + 1" using assms by simp_all
  have eq1: "nat (i + 1) - nat (i - w + 1) = nat w" using assms by linarith
  have eq2: "nat (i - w + 1) = Suc (nat i) - nat w" using assms by linarith
  show "py_slice prices (i - w + 1) (i + 1) = spec_trailing_window prices w (nat i)"
    by (simp only: py_slice_nonneg [OF a] eq1) (simp only: eq2 spec_trailing_window_def)
  have "nat w \<le> length prices - (Suc (nat i) - nat w)" using assms by linarith
  then show "length (py_slice prices (i - w + 1) (i + 1)) = nat w"
    by (simp only: py_slice_nonneg [OF a] eq1) (simp add: eq2)
qed

lemma sma_nth:
  assumes "0 < w" and "w \<le> int (length prices)" and "i < length prices"
  shows "\<exists>s. calculate_sma prices w = Inr s \<and> length s = length prices
           \<and> s ! i = (if int i < w - 1 then None else Some (spec_mean_at prices w i))"
proof -
  let ?f = "\<lambda>i. if i < w - 1 then None
                  else Some (sum_list (py_slice prices (i - w + 1) (i + 1)) / real_of_int w)"
  have s: "calculate_sma prices w = Inr (map ?f (py_range 0 (int (length prices))))"
    using assms by (simp add: calculate_sma_eq)
  have "map ?f (py_range 0 (int (length prices))) ! i = ?f (int i)"
    using assms(3) by (simp add: nth_py_range)
  also have "\<dots> = (if int i < w - 1 then None else Some (spec_mean_at prices w i))"
    using py_slice_trailing(1) [OF assms(1), of "int i" prices] assms(3)
    by (simp add: spec_mean_at_def)
  finally show ?thesis using s by simp
qed

lemma bollinger_loop_eq:
  assumes w: "0 < w"
    and idx: "\<forall>i\<in>set idxs. 0 \<le> i \<and> i < int (length prices)"
    and len: "length sma = length prices"
    and sma: "\<forall>i\<in>set idxs. w - 1 \<le> i \<longrightarrow> sma ! nat i = Some (spec_mean_at prices w (nat i))"
  shows "bollinger_loop prices w k sma idxs up lo =
     Inr (up @ map (\<lambda>i. if i < w - 1 then None
                          else Some (spec_mean_at prices w (nat i)
                                 + k * spec_population_std_dev (spec_trailing_window prices w (nat i)))) idxs,
          lo @ map (\<lambda>i. if i < w - 1 then None
                          else Some (spec_mean_at prices w (nat i)
                                 - k * spec_population_std_dev (spec_trailing_window prices w (nat i)))) idxs)"
  using idx sma
proof (induction idxs arbitrary: up lo)
  case Nil
  then show ?case by simp
next
  case (Cons i idxs)
  have i: "0 \<le> i" "i < int (length prices)" using Cons.prems(1) by simp_all
  have IH: "\<And>up lo. bollinger_loop prices w k sma idxs up lo =
     Inr (up @ map (\<lambda>i. if i < w - 1 then None
                          else Some (spec_mean_at prices w (nat i)
                                 + k * spec_population_std_dev (spec_trailing_window prices w (nat i)))) idxs,
          lo @ map (\<lambda>i. if i < w - 1 then None
                          else Some (spec_mean_at prices w (nat i)
                                 - k * spec_population_std_dev (spec_trailing_window prices w (nat i)))) idxs)"
    using Cons.IH Cons.prems by simp
  show ?case
  proof (cases "i < w - 1")
    case True
    then show ?thesis by (simp add: IH)
  next
    case False
    then have ge: "w - 1 \<le> i" by simp
    have sl: "py_slice prices (i - w + 1) (i + 1) = spec_trailing_window prices w (nat i)"
      and ne: "py_slice prices (i - w + 1) (i + 1) \<noteq> []"
      using py_slice_trailing [OF w ge i(2)] w by auto
    have std: "np_std (py_slice prices (i - w + 1) (i + 1)) =
                 Inr (spec_population_std_dev (spec_trailing_window prices w (nat i)))"
      using np_std_nonempty [OF ne] by (simp only: sl)
    have m: "py_index sma i = Inr (Some (spec_mean_at prices w (nat i)))"
      using Cons.prems(2) ge i len by (simp add: py_index_in_range)
    show ?thesis using False by (simp add: std m IH)
  qed
qed

lemma calculate_bollinger_bands_short:
  "int (length prices) < w \<Longrightarrow>
   calculate_bollinger_bands prices w k =
     Inr (nones (int (length prices)), nones (int (length prices)), nones (int (length prices)))"
  by (simp add: calculate_bollinger_bands_def)

lemma calculate_bollinger_bands_long:
  assumes w: "0 < w" and n: "w \<le> int (length prices)"
  shows "\<exists>s. calculate_sma prices w = Inr s \<and> length s = length prices \<and>
     calculate_bollinger_bands prices w k =
     Inr (map (\<lambda>i. if i < w - 1 then None
                          else Some (spec_mean_at prices w (nat i)
                                 + k * spec_population_std_dev (spec_trailing_window prices w (nat i))))
            (py_range 0 (int (length prices))),
          s,
          map (\<lambda>i. if i < w - 1 then None
                          else Some (spec_mean_at prices w (nat i)
                                 - k * spec_population_std_dev (spec_trailing_window prices w (nat i))))
            (py_range 0 (int (length prices))))"
proof -
  obtain s where s: "calculate_sma prices w = Inr s" and len: "length s = length prices"
    using w n by (auto simp: calculate_sma_eq)
  have idx: "\<forall>i\<in>set (py_range 0 (int (length prices))). 0 \<le> i \<and> i < int (length prices)"
    by (simp add: set_py_range)
  have sm: "\<forall>i\<in>set (py_range 0 (int (length prices))).
              w - 1 \<le> i \<longrightarrow> s ! nat i = Some (spec_mean_at prices w (nat i))"
  proof (intro ballI impI)
    fix i assume i: "i \<in> set (py_range 0 (int (length prices)))" and ge: "w - 1 \<le> i"
    then have lt: "nat i < length prices" and i0: "0 \<le> i" by (auto simp: set_py_range)
    from sma_nth [OF w n lt] s have "s ! nat i = (if int (nat i) < w - 1 then None
                      else Some (spec_mean_at prices w (nat i)))" by auto
    then show "s ! nat i = Some (spec_mean_at prices w (nat i))" using ge i0 by simp
  qed
  show ?thesis
    using s len n bollinger_loop_eq [OF w idx len sm, of k "[]" "[]"]
    by (simp add: calculate_bollinger_bands_def)
qed

lemma calculate_bollinger_bands_nonpositive:
  assumes "w \<le> 0" and "prices \<noteq> []"
  shows "\<exists>e. calculate_bollinger_bands prices w k = Inl e"
proof (cases "w = 0")
  case True
  have r: "py_range 0 (int (length prices)) = 0 # py_range 1 (int (length prices))"
    using assms(2) by (simp add: py_range_def upto_rec1)
  show ?thesis using True
    by (simp add: calculate_bollinger_bands_def calculate_sma_def r)
next
  case False
  then have w: "w < 0" using assms(1) by simp
  obtain s where s: "calculate_sma prices w = Inr s"
    using False by (simp add: calculate_sma_eq)
  have r: "py_range 0 (int (length prices)) = 0 # py_range 1 (int (length prices))"
    using assms(2) by (simp add: py_range_def upto_rec1)
  have "py_slice prices (0 - w + 1) (0 + 1) = []"
    using w assms(2) by (simp add: py_slice_def Let_def min_def)
  then have "bollinger_loop prices w k s (py_range 0 (int (length prices))) [] [] = Inl NotANumber"
    using w by (simp add: r np_std_def)
  then show ?thesis using s w by (simp add: calculate_bollinger_bands_def)
qed

section \<open>Moving average convergence divergence\<close>

lemma spec_pointwise_diff_None2 [simp]: "spec_pointwise_diff x None = None"
  by (cases x) simp_all

lemma diff_step_in_range:
  assumes "0 \<le> i" and "i < int (length a)" and "length b = length a"
  shows "diff_step a b i = Inr (spec_pointwise_diff (a ! nat i) (b ! nat i))"
proof (cases "a ! nat i")
  case None
  then show ?thesis using assms by (simp add: diff_step_def py_index_in_range)
next
  case (Some x)
  then show ?thesis using assms
    by (cases "b ! nat i") (simp_all add: diff_step_def py_index_in_range)
qed

lemma diff_loop_eq:
  assumes "\<forall>i\<in>set idxs. 0 \<le> i \<and> i < int (length a)" and "length b = length a"
  shows "diff_loop a b idxs acc =
           Inr (acc @ map (\<lambda>i. spec_pointwise_diff (a ! nat i) (b ! nat i)) idxs)"
  using assms(1)
proof (induction idxs arbitrary: acc)
  case Nil
  then show ?case by simp
next
  case (Cons i idxs)
  then have "diff_step a b i = Inr (spec_pointwise_diff (a ! nat i) (b ! nat i))"
    using diff_step_in_range [of i a b] assms(2) by simp
  then show ?case using Cons by simp
qed

lemma diff_loop_whole:
  assumes "length b = length a"
  shows "\<exists>d. diff_loop a b (py_range 0 (int (length a))) [] = Inr d \<and> length d = length a
           \<and> (\<forall>i < length a. d ! i = spec_pointwise_diff (a ! i) (b ! i))"
proof -
  have "\<forall>i\<in>set (py_range 0 (int (length a))). 0 \<le> i \<and> i < int (length a)"
    by (simp add: set_py_range)
  from diff_loop_eq [OF this assms, of "[]"]
  have "diff_loop a b (py_range 0 (int (length a))) [] =
          Inr (map (\<lambda>i. spec_pointwise_diff (a ! nat i) (b ! nat i)) (py_range 0 (int (length a))))"
    by simp
  then show ?thesis by (simp add: nth_py_range)
qed

lemma length_defined_values: "length (defined_values xs) + undefined_count xs = length xs"
  by (induction xs rule: defined_values.induct) (simp_all add: undefined_count_def)

lemma all_None_eq_replicate: "(\<forall>i < length xs. xs ! i = None) \<Longrightarrow> xs = replicate (length xs) None"
  by (simp add: list_eq_iff_nth_eq)

lemma calculate_macd_eq:
  assumes f: "0 < fast" and s: "0 < slow" and g: "0 < signal"
  shows "\<exists>ef es ml se sl h.
           calculate_ema prices fast = Inr ef \<and> calculate_ema prices slow = Inr es
         \<and> calculate_ema (defined_values ml) signal = Inr se
         \<and> calculate_macd prices fast slow signal = Inr (ml, sl, h)
         \<and> length ml = length prices \<and> length sl = length prices \<and> length h = length prices
         \<and> (\<forall>i < length prices. ml ! i = spec_pointwise_diff (ef ! i) (es ! i))
         \<and> sl = replicate (undefined_count ml) None @ se
         \<and> (\<forall>i < length prices. h ! i = spec_pointwise_diff (ml ! i) (sl ! i))"
proof -
  obtain ef where ef: "calculate_ema prices fast = Inr ef" and lef: "length ef = length prices"
    using calculate_ema_total [OF f] by blast
  obtain es where es: "calculate_ema prices slow = Inr es" and les: "length es = length prices"
    using calculate_ema_total [OF s] by blast
  obtain ml where ml: "diff_loop ef es (py_range 0 (int (length prices))) [] = Inr ml"
    and lml: "length ml = length prices"
    and mli: "\<forall>i < length prices. ml ! i = spec_pointwise_diff (ef ! i) (es ! i)"
    using diff_loop_whole [of es ef] lef les by auto
  let ?vals = "defined_values ml"
  obtain se where se: "calculate_ema ?vals signal = Inr se" and lse: "length se = length ?vals"
    using calculate_ema_total [OF g] by blast
  have cnt: "length ?vals + undefined_count ml = length prices"
    using length_defined_values [of ml] lml by simp
  let ?sl = "replicate (undefined_count ml) None @ se"
  have pad: "nones (int (length ml) - int (length ?vals)) = replicate (undefined_count ml) None"
    using cnt lml by (simp add: nones_def)
  have sig: "(if int (length ?vals) \<ge> signal
               then bnd (calculate_ema ?vals signal) (\<lambda>signal_ema.
                      Inr (nones (int (length ml) - int (length ?vals)) @ signal_ema))
               else Inr (nones (int (length ml)))) = Inr ?sl"
  proof (cases "int (length ?vals) \<ge> signal")
    case True
    then show ?thesis by (simp add: se pad)
  next
    case False
    then have "calculate_ema ?vals signal = Inr (nones (int (length ?vals)))"
      by (simp add: calculate_ema_short)
    with se have "se = nones (int (length ?vals))" by simp
    then have "?sl = nones (int (length ml))"
      using cnt lml by (simp add: nones_def flip: replicate_add)
    with False show ?thesis by simp
  qed
  have lsl: "length ?sl = length prices" using cnt lse by simp
  obtain h where h: "diff_loop ml ?sl (py_range 0 (int (length ml))) [] = Inr h"
    and lh: "length h = length prices"
    and hi: "\<forall>i < length prices. h ! i = spec_pointwise_diff (ml ! i) (?sl ! i)"
    using diff_loop_whole [of ?sl ml] lsl lml by auto
  have "calculate_macd prices fast slow signal = Inr (ml, ?sl, h)"
    unfolding calculate_macd_def Let_def
    by (simp only: ef es ml bnd_Inr sig h)
  with ef es se lml lsl lh mli hi show ?thesis by blast
qed

lemma undefined_count_append:
  "undefined_count (xs @ ys) = undefined_count xs + undefined_count ys"
  by (simp add: undefined_count_def)

lemma undefined_count_prefix:
  assumes "k \<le> length xs" and "\<forall>i < k. xs ! i = None"
  shows "k \<le> undefined_count xs"
proof -
  have "take k xs = replicate k None"
    using assms by (simp add: list_eq_iff_nth_eq)
  then have "undefined_count (take k xs) = k" by (simp add: undefined_count_def)
  moreover have "undefined_count xs = undefined_count (take k xs) + undefined_count (drop k xs)"
    using undefined_count_append [of "take k xs" "drop k xs"] by simp
  ultimately show ?thesis by simp
qed

lemma calculate_ema_prefix:
  assumes "0 < w" and "calculate_ema prices w = Inr e" and "i < length prices" and "int i < w - 1"
  shows "e ! i = None"
proof (cases "int (length prices) < w")
  case True
  then show ?thesis using assms calculate_ema_short [OF True] by (auto simp: nones_def)
next
  case False
  then have "w \<le> int (length prices)" by simp
  from calculate_ema_long [OF assms(1) this] assms(2)
  obtain ys where "e = nones (w - 1) @ Some (sum_list (take (nat w) prices) / real_of_int w) # ys"
    by auto
  moreover have "i < length (nones (w - 1))" using assms(4) by simp
  ultimately have "e ! i = nones (w - 1) ! i" by (simp add: nth_append)
  then show ?thesis using \<open>i < length (nones (w - 1))\<close> by (simp add: nones_def)
qed

lemma macd_short_signal:
  assumes f: "0 < fast" and s: "0 < slow" and g: "0 < signal"
    and res: "calculate_macd prices fast slow signal = Inr (ml, sl, h)"
    and few: "int (length (defined_values ml)) < signal"
  shows "sl = replicate (length prices) None \<and> h = replicate (length prices) None"
proof -
  from calculate_macd_eq [OF f s g, of prices] res
  obtain se where se: "calculate_ema (defined_values ml) signal = Inr se"
    and lens: "length ml = length prices" "length sl = length prices" "length h = length prices"
    and sl: "sl = replicate (undefined_count ml) None @ se"
    and hi: "\<forall>i < length prices. h ! i = spec_pointwise_diff (ml ! i) (sl ! i)"
    by auto
  from se calculate_ema_short [OF few] have "se = replicate (length (defined_values ml)) None"
    by (simp add: nones_def)
  with sl have "sl = replicate (undefined_count ml + length (defined_values ml)) None"
    by (simp add: replicate_add)
  then have sl': "sl = replicate (length prices) None"
    using length_defined_values [of ml] lens(1) by (simp add: add.commute)
  have "\<forall>i < length h. h ! i = None"
  proof (intro allI impI)
    fix i assume "i < length h"
    then have i: "i < length prices" using lens(3) by simp
    then have "sl ! i = None" using sl' by (metis nth_replicate)
    with hi i show "h ! i = None" by simp
  qed
  from all_None_eq_replicate [OF this] lens(3) have "h = replicate (length prices) None" by simp
  with sl' show ?thesis by simp
qed

lemma macd_line_prefix:
  assumes f: "0 < fast" and s: "0 < slow" and g: "0 < signal"
    and res: "calculate_macd prices fast slow signal = Inr (ml, sl, h)"
    and i: "i < length prices" and lt: "int i < max fast slow - 1"
  shows "ml ! i = None"
proof -
  from calculate_macd_eq [OF f s g, of prices] res
  obtain ef es where ef: "calculate_ema prices fast = Inr ef"
    and es: "calculate_ema prices slow = Inr es"
    and mli: "\<forall>i < length prices. ml ! i = spec_pointwise_diff (ef ! i) (es ! i)"
    by auto
  have "ef ! i = None \<or> es ! i = None"
  proof (cases "int i < fast - 1")
    case True
    then show ?thesis using calculate_ema_prefix [OF f ef i] by simp
  next
    case False
    then have "int i < slow - 1" using lt by simp
    then show ?thesis using calculate_ema_prefix [OF s es i] by simp
  qed
  then have "spec_pointwise_diff (ef ! i) (es ! i) = None"
    by (cases "ef ! i") auto
  with mli i show ?thesis by simp
qed

lemma macd_short_input:
  assumes f: "0 < fast" and s: "0 < slow" and g: "0 < signal"
    and res: "calculate_macd prices fast slow signal = Inr (ml, sl, h)"
    and short: "int (length prices) < max fast slow + signal - 1"
  shows "sl = replicate (length prices) None \<and> h = replicate (length prices) None"
proof -
  from calculate_macd_eq [OF f s g, of prices] res
  have lml: "length ml = length prices" by auto
  define k where "k = min (length prices) (nat (max fast slow - 1))"
  have k1: "k \<le> length ml" using lml by (simp add: k_def)
  have "\<forall>i < k. ml ! i = None"
  proof (intro allI impI)
    fix i assume "i < k"
    then have "i < length prices" "int i < max fast slow - 1" unfolding k_def by linarith+
    then show "ml ! i = None" using macd_line_prefix [OF f s g res] by blast
  qed
  from undefined_count_prefix [OF k1 this] have "k \<le> undefined_count ml" .
  then have "length (defined_values ml) \<le> length prices - k"
    using length_defined_values [of ml] lml by linarith
  then have "int (length (defined_values ml)) < signal"
    using short g f s unfolding k_def by (cases "length prices \<le> nat (max fast slow - 1)") auto
  from macd_short_signal [OF f s g res this] show ?thesis .
qed

lemma macd_line_short_input:
  assumes f: "0 < fast" and s: "0 < slow" and g: "0 < signal"
    and res: "calculate_macd prices fast slow signal = Inr (ml, sl, h)"
    and short: "int (length prices) < max fast slow"
  shows "ml = replicate (length prices) None"
proof -
  from calculate_macd_eq [OF f s g, of prices] res
  have lml: "length ml = length prices" by auto
  have "\<forall>i < length ml. ml ! i = None"
  proof (intro allI impI)
    fix i assume "i < length ml"
    then have "i < length prices" "int i < max fast slow - 1" using lml short by simp_all
    then show "ml ! i = None" using macd_line_prefix [OF f s g res] by blast
  qed
  from all_None_eq_replicate [OF this] lml show ?thesis by simp
qed

lemma calculate_rsi_total:
  assumes "0 < w"
  shows "\<exists>r. calculate_rsi prices w = Inr r \<and> length r = length prices
           \<and> (int (length prices) < w + 1 \<longrightarrow> r = replicate (length prices) None)"
proof (cases "int (length prices) < w + 1")
  case True
  then show ?thesis by (simp add: calculate_rsi_short nones_def)
next
  case False
  then have n: "w + 1 \<le> int (length prices)" by simp
  from calculate_rsi_long [OF assms n] show ?thesis using assms n by simp
qed

section \<open>Window builder and orchestrator\<close>

lemma compute_indicators_total:
  "\<exists>ind. compute_indicators prices = Inr ind
        \<and> (\<forall>s\<in>set (indicator_series ind). length s = length prices)"
proof -
  obtain sma_20 where a1: "calculate_sma prices 20 = Inr sma_20" "length sma_20 = length prices"
    by (simp add: calculate_sma_eq)
  obtain sma_50 where a2: "calculate_sma prices 50 = Inr sma_50" "length sma_50 = length prices"
    by (simp add: calculate_sma_eq)
  obtain ema_12 where a3: "calculate_ema prices 12 = Inr ema_12" "length ema_12 = length prices"
    using calculate_ema_total [of 12 prices] by auto
  obtain ema_26 where a4: "calculate_ema prices 26 = Inr ema_26" "length ema_26 = length prices"
    using calculate_ema_total [of 26 prices] by auto
  obtain rsi where a5: "calculate_rsi prices 14 = Inr rsi" "length rsi = length prices"
    using calculate_rsi_total [of 14 prices] by auto
  obtain bu bm bl where a6: "calculate_bollinger_bands prices 20 2 = Inr (bu, bm, bl)"
    "length bu = length prices" "length bm = length prices" "length bl = length prices"
  proof (cases "int (length prices) < 20")
    case True
    then show ?thesis using that by (simp add: calculate_bollinger_bands_short)
  next
    case False
    then have "20 \<le> int (length prices)" by simp
    from calculate_bollinger_bands_long [OF _ this, of 2] show ?thesis using that by auto
  qed
  obtain ml sl h where a7: "calculate_macd prices 12 26 9 = Inr (ml, sl, h)"
    "length ml = length prices" "length sl = length prices" "length h = length prices"
    using calculate_macd_eq [of 12 26 9 prices] by auto
  have "compute_indicators prices =
      Inr \<lparr>ind_sma_20 = sma_20, ind_sma_50 = sma_50, ind_ema_12 = ema_12,
            ind_ema_26 = ema_26, ind_rsi = rsi,
            ind_bollinger_upper = bu, ind_bollinger_middle = bm,
            ind_bollinger_lower = bl,
            ind_macd_line = ml, ind_macd_signal = sl,
            ind_macd_histogram = h\<rparr>"
    unfolding compute_indicators_def
    by (simp only: a1(1) a2(1) a3(1) a4(1) a5(1) a6(1) a7(1) bnd_Inr prod.case)
  then show ?thesis
    using a1(2) a2(2) a3(2) a4(2) a5(2) a6(2,3,4) a7(2,3,4)
    by (simp add: indicator_series_def)
qed

lemma parse_day_error:
  "parse_day to_float to_int ts date = Inl e \<Longrightarrow> e = KeyError \<or> e = ValueError"
  unfolding parse_day_def
  by (auto simp: bnd_def dict_get_def py_parse_def split: option.splits sum.splits)

lemma parse_day_ok_iff:
  "(\<exists>v. parse_day to_float to_int ts date = Inr v) \<longleftrightarrow> \<not> spec_malformed to_float to_int ts date"
proof (cases "map_of ts date")
  case None
  then show ?thesis
    by (simp add: parse_day_def spec_malformed_def dict_get_def)
next
  case (Some r)
  then have g: "dict_get ts date = Inr r" by (simp add: dict_get_def)
  show ?thesis
    unfolding parse_day_def spec_malformed_def g Some
    by (auto simp: spec_field_ok_def dict_get_def py_parse_def split: option.splits)
qed

lemma parse_day_fails:
  "spec_malformed to_float to_int ts date \<Longrightarrow>
   \<exists>e. parse_day to_float to_int ts date = Inl e \<and> (e = KeyError \<or> e = ValueError)"
proof -
  assume "spec_malformed to_float to_int ts date"
  then have "\<not> (\<exists>v. parse_day to_float to_int ts date = Inr v)"
    using parse_day_ok_iff [of to_float to_int ts date] by blast
  then obtain e where "parse_day to_float to_int ts date = Inl e"
    by (cases "parse_day to_float to_int ts date") auto
  then show ?thesis using parse_day_error by blast
qed

lemma build_loop_fails:
  assumes "date \<in> set ds" and "spec_malformed to_float to_int ts date"
  shows "\<exists>e. build_loop to_float to_int ts ds w = Inl e \<and> (e = KeyError \<or> e = ValueError)"
  using assms(1)
proof (induction ds arbitrary: w)
  case Nil
  then show ?case by simp
next
  case (Cons d ds)
  show ?case
  proof (cases "parse_day to_float to_int ts d")
    case (Inl e)
    then show ?thesis using parse_day_error [OF Inl] by simp
  next
    case (Inr v)
    then have "d \<noteq> date" using parse_day_fails [OF assms(2)] by auto
    then have "date \<in> set ds" using Cons.prems by simp
    from Cons.IH [OF this] Inr show ?thesis by (cases v) auto
  qed
qed

lemma build_loop_ok:
  assumes "build_loop to_float to_int ts ds w = Inr w'"
  shows "wb_dates w' = wb_dates w @ ds
       \<and> length (wb_prices w') = length (wb_prices w) + length ds
       \<and> length (wb_volumes w') = length (wb_volumes w) + length ds
       \<and> length (wb_highs w') = length (wb_highs w) + length ds
       \<and> length (wb_lows w') = length (wb_lows w) + length ds
       \<and> length (wb_opens w') = length (wb_opens w) + length ds"
  using assms
proof (induction ds arbitrary: w)
  case Nil
  then show ?case by simp
next
  case (Cons d ds)
  from Cons.prems obtain c v h l opn where
    p: "parse_day to_float to_int ts d = Inr (c, v, h, l, opn)"
    by (cases "parse_day to_float to_int ts d") auto
  let ?w = "\<lparr>wb_dates = wb_dates w @ [d], wb_prices = wb_prices w @ [c],
             wb_volumes = wb_volumes w @ [v], wb_highs = wb_highs w @ [h],
             wb_lows = wb_lows w @ [l], wb_opens = wb_opens w @ [opn]\<rparr>"
  from Cons.prems p have "build_loop to_float to_int ts ds ?w = Inr w'" by simp
  from Cons.IH [OF this] show ?case by simp
qed

lemma build_loop_succeeds:
  assumes "\<forall>d\<in>set ds. \<not> spec_malformed to_float to_int ts d"
  shows "\<exists>w'. build_loop to_float to_int ts ds w = Inr w'"
  using assms
proof (induction ds arbitrary: w)
  case Nil
  then show ?case by simp
next
  case (Cons d ds)
  then obtain v where "parse_day to_float to_int ts d = Inr v"
    using parse_day_ok_iff [of to_float to_int ts d] by auto
  then show ?case using Cons by (cases v) auto
qed

lemma length_sorted_dates_of: "length (sorted_dates_of ts) = min 60 (length ts)"
  by (simp add: sorted_dates_of_def)

lemma build_window_ok:
  assumes "build_window to_float to_int ts = Inr w"
  shows "wb_dates w = sorted_dates_of ts
       \<and> length (wb_prices w) = length (wb_dates w)
       \<and> length (wb_volumes w) = length (wb_dates w)
       \<and> length (wb_highs w) = length (wb_dates w)
       \<and> length (wb_lows w) = length (wb_dates w)
       \<and> length (wb_opens w) = length (wb_dates w)
       \<and> length (wb_dates w) = min 60 (length ts)"
  using build_loop_ok [OF assms [unfolded build_window_def]]
  by (simp add: length_sorted_dates_of)

lemma trim_indicators_drop:
  "indicator_series (trim_indicators (int k) ind) = map (drop k) (indicator_series ind)"
  by (simp add: trim_indicators_def indicator_series_def py_slice_from_nonneg)

lemma start_index_eq:
  "int L - min 30 (int L) = int (L - min 30 L)"
  by (simp add: min_def)

lemma process_stock_data_returns:
  assumes ts: "time_series_daily data = Some ts"
    and bw: "build_window to_float to_int ts = Inr w"
    and ci: "compute_indicators (wb_prices w) = Inr ind"
    and md: "meta_data data = Some meta"
    and sy: "map_of meta ''2. Symbol'' = Some symbol"
    and lr: "map_of meta ''3. Last Refreshed'' = Some last_refreshed"
    and k: "k = length (wb_dates w) - min 30 (length (wb_dates w))"
  shows "process_stock_data to_float to_int data =
     Inr (Some \<lparr>out_dates = drop k (wb_dates w),
                out_prices = drop k (wb_prices w),
                out_volumes = drop k (wb_volumes w),
                out_highs = drop k (wb_highs w),
                out_lows = drop k (wb_lows w),
                out_opens = drop k (wb_opens w),
                out_indicators = trim_indicators (int k) ind,
                out_symbol = symbol,
                out_last_refreshed = last_refreshed\<rparr>)"
proof -
  have si: "int (length (wb_dates w)) - min 30 (int (length (wb_dates w))) = int k"
    unfolding k by (rule start_index_eq)
  have g: "dict_get meta ''2. Symbol'' = Inr symbol"
    "dict_get meta ''3. Last Refreshed'' = Inr last_refreshed"
    using sy lr by (simp_all add: dict_get_def)
  show ?thesis
    unfolding process_stock_data_def Let_def
    by (simp add: ts bw ci md g si py_slice_from_nonneg)
qed

lemma process_stock_data_error:
  assumes ts: "time_series_daily data = Some ts"
    and bw: "build_window to_float to_int ts = Inl e"
  shows "process_stock_data to_float to_int data = Inl e"
  by (simp add: process_stock_data_def ts bw)

lemma compute_indicators_empty:
  "compute_indicators [] =
     Inr \<lparr>ind_sma_20 = [], ind_sma_50 = [], ind_ema_12 = [], ind_ema_26 = [], ind_rsi = [],
          ind_bollinger_upper = [], ind_bollinger_middle = [], ind_bollinger_lower = [],
          ind_macd_line = [], ind_macd_signal = [], ind_macd_histogram = []\<rparr>"
  by (simp add: compute_indicators_def calculate_sma_def calculate_ema_def calculate_rsi_def
      calculate_bollinger_bands_def calculate_macd_def nones_def)

lemma build_window_empty:
  "build_window to_float to_int [] =
     Inr \<lparr>wb_dates = [], wb_prices = [], wb_volumes = [], wb_highs = [], wb_lows = [],
          wb_opens = []\<rparr>"
  by (simp add: build_window_def sorted_dates_of_def)

lemma trim_indicators_empty:
  "trim_indicators 0
     \<lparr>ind_sma_20 = [], ind_sma_50 = [], ind_ema_12 = [], ind_ema_26 = [], ind_rsi = [],
      ind_bollinger_upper = [], ind_bollinger_middle = [], ind_bollinger_lower = [],
      ind_macd_line = [], ind_macd_signal = [], ind_macd_histogram = []\<rparr> =
     \<lparr>ind_sma_20 = [], ind_sma_50 = [], ind_ema_12 = [], ind_ema_26 = [], ind_rsi = [],
      ind_bollinger_upper = [], ind_bollinger_middle = [], ind_bollinger_lower = [],
      ind_macd_line = [], ind_macd_signal = [], ind_macd_histogram = []\<rparr>"
  by (simp add: trim_indicators_def py_slice_from_def py_slice_def)

section \<open>The code against the specification's EMA and MACD\<close>

lemma ema_loop_closed:
  assumes w: "0 < w" and d: "nat w + j + d = length xs"
  shows "ema_loop xs (2 / real_of_int (w + 1)) (py_range (w + int j) (int (length xs)))
           (acc @ [Some (spec_ema_value xs w j)]) =
         Inr (acc @ map (\<lambda>t. Some (spec_ema_value xs w t)) [j..<j + d + 1])"
  using d
proof (induction d arbitrary: j acc)
  case 0
  then have "int (length xs) \<le> w + int j" using w by linarith
  then show ?case by simp
next
  case (Suc d)
  let ?i = "w + int j"
  have lt: "?i < int (length xs)" using Suc.prems w by linarith
  have i0: "0 \<le> ?i" using w by simp
  have ni: "nat ?i = nat w + j" using w by (simp add: nat_add_distrib)
  have idx: "py_index xs ?i = Inr (xs ! (nat w + j))"
    using py_index_in_range [OF i0 lt] by (simp only: ni)
  have next_range: "py_range ?i (int (length xs)) = ?i # py_range (w + int (Suc j)) (int (length xs))"
  proof -
    have "w + int (Suc j) = ?i + 1" by simp
    then show ?thesis using py_range_Cons [OF lt] by (simp only:)
  qed
  have d': "nat w + Suc j + d = length xs" using Suc.prems by simp
  have ivl: "[j..<j + Suc d + 1] = j # [Suc j..<Suc j + d + 1]"
    by (simp add: upt_conv_Cons)
  have step: "ema_loop xs (2 / real_of_int (w + 1)) (?i # py_range (w + int (Suc j)) (int (length xs)))
                (acc @ [Some (spec_ema_value xs w j)]) =
              ema_loop xs (2 / real_of_int (w + 1)) (py_range (w + int (Suc j)) (int (length xs)))
                ((acc @ [Some (spec_ema_value xs w j)]) @ [Some (spec_ema_value xs w (Suc j))])"
    by (simp add: idx)
  show ?case
    unfolding next_range ivl step
    using Suc.IH [OF d', of "acc @ [Some (spec_ema_value xs w j)]"] by simp
qed

lemma calculate_ema_spec:
  assumes w: "0 < w"
  shows "calculate_ema xs w = Inr (spec_ema xs w)"
proof (cases "int (length xs) < w")
  case True
  then show ?thesis by (simp add: calculate_ema_short spec_ema_def nones_def)
next
  case False
  then have n: "w \<le> int (length xs)" by simp
  have d: "nat w + 0 + (length xs - nat w) = length xs" using n w by simp
  have seed: "sum_list (py_slice xs 0 w) / real_of_int w = spec_ema_value xs w 0"
    using w by (simp add: py_slice_prefix)
  have L: "ema_loop xs (2 / real_of_int (w + 1)) (py_range w (int (length xs)))
           (nones (w - 1) @ [Some (spec_ema_value xs w 0)]) =
         Inr (nones (w - 1) @ map (\<lambda>t. Some (spec_ema_value xs w t)) [0..<0 + (length xs - nat w) + 1])"
    using ema_loop_closed [OF w d, of "nones (w - 1)"] by (simp del: spec_ema_value.simps)
  have cnt: "0 + (length xs - nat w) + 1 = length xs - (nat w - 1)" using n w by linarith
  have pad: "nones (w - 1) = replicate (nat w - 1) None"
    using w by (simp add: nones_def nat_diff_distrib')
  have w0: "real_of_int w \<noteq> 0" "real_of_int (w + 1) \<noteq> 0" using w by simp_all
  have "calculate_ema xs w =
          ema_loop xs (2 / real_of_int (w + 1)) (py_range w (int (length xs)))
            (nones (w - 1) @ [Some (sum_list (py_slice xs 0 w) / real_of_int w)])"
    using False w0 by (simp add: calculate_ema_def)
  also have "\<dots> = Inr (nones (w - 1) @ map (\<lambda>t. Some (spec_ema_value xs w t)) [0..<0 + (length xs - nat w) + 1])"
    by (simp only: seed L)
  also have "\<dots> = Inr (spec_ema xs w)"
    using False by (simp only: cnt pad spec_ema_def if_False)
  finally show ?thesis .
qed

lemma length_spec_ema [simp]: "0 < w \<Longrightarrow> length (spec_ema xs w) = length xs"
  by (auto simp: spec_ema_def)

lemma spec_ema_nth:
  assumes "0 < w" and "i < length xs"
  shows "spec_ema xs w ! i =
           (if int (length xs) < w \<or> int i < w - 1 then None
            else Some (spec_ema_value xs w (i - (nat w - 1))))"
proof (cases "int (length xs) < w")
  case True
  then show ?thesis using assms by (simp add: spec_ema_def)
next
  case False
  show ?thesis
  proof (cases "int i < w - 1")
    case True
    then have "i < nat w - 1" using assms by linarith
    then show ?thesis using False True by (simp add: spec_ema_def nth_append)
  next
    case ge: False
    then have a: "\<not> i < nat w - 1" using assms by linarith
    have b: "i - (nat w - 1) < length xs - (nat w - 1)" using a assms by linarith
    show ?thesis using False ge a b
      by (simp add: spec_ema_def nth_append del: spec_ema_value.simps)
  qed
qed

lemma defined_values_spec: "defined_values xs = spec_compact xs"
  by (induction xs rule: defined_values.induct) (simp_all add: spec_compact_def)

lemma length_spec_macd_line [simp]:
  "0 < fast \<Longrightarrow> 0 < slow \<Longrightarrow> length (spec_macd_line prices fast slow) = length prices"
  by (simp add: spec_macd_line_def)

lemma calculate_macd_spec:
  assumes f: "0 < fast" and s: "0 < slow" and g: "0 < signal"
  shows "\<exists>ml sl h.
           calculate_macd prices fast slow signal = Inr (ml, sl, h)
         \<and> ml = spec_macd_line prices fast slow
         \<and> sl = replicate (undefined_count ml) None @ spec_ema (spec_compact ml) signal
         \<and> h = map2 spec_pointwise_diff ml sl
         \<and> length ml = length prices \<and> length sl = length prices \<and> length h = length prices"
proof -
  from calculate_macd_eq [OF f s g, of prices]
  obtain ef es ml se sl h where
      ef: "calculate_ema prices fast = Inr ef" and es: "calculate_ema prices slow = Inr es"
    and se: "calculate_ema (defined_values ml) signal = Inr se"
    and res: "calculate_macd prices fast slow signal = Inr (ml, sl, h)"
    and lens: "length ml = length prices" "length sl = length prices" "length h = length prices"
    and mli: "\<forall>i < length prices. ml ! i = spec_pointwise_diff (ef ! i) (es ! i)"
    and sl: "sl = replicate (undefined_count ml) None @ se"
    and hi: "\<forall>i < length prices. h ! i = spec_pointwise_diff (ml ! i) (sl ! i)"
    by blast
  have ef': "ef = spec_ema prices fast" using ef calculate_ema_spec [OF f, of prices] by simp
  have es': "es = spec_ema prices slow" using es calculate_ema_spec [OF s, of prices] by simp
  have se': "se = spec_ema (spec_compact ml) signal"
    using se calculate_ema_spec [OF g, of "defined_values ml"] by (simp add: defined_values_spec)
  have ml': "ml = spec_macd_line prices fast slow"
    using lens(1) mli f s by (simp add: list_eq_iff_nth_eq spec_macd_line_def ef' es')
  have h': "h = map2 spec_pointwise_diff ml sl"
    using lens hi by (simp add: list_eq_iff_nth_eq)
  from res ml' sl se' h' lens show ?thesis by blast
qed

lemma undefined_count_replicate_map:
  "undefined_count (replicate k None @ map (\<lambda>i. Some (g i)) xs) = k"
  by (simp add: undefined_count_def filter_map o_def)

lemma spec_compact_replicate_map:
  "spec_compact (replicate k None @ map (\<lambda>i. Some (g i)) xs) = map g xs"
  by (simp add: spec_compact_def filter_map o_def)

lemma spec_macd_line_shape:
  assumes f: "0 < fast" and s: "0 < slow"
  shows "spec_macd_line prices fast slow =
           replicate (min (length prices) (nat (max fast slow) - 1)) None
           @ map (\<lambda>i. Some (spec_ema_value prices fast (i - (nat fast - 1))
                           - spec_ema_value prices slow (i - (nat slow - 1))))
               [nat (max fast slow) - 1..<length prices]"
    (is "?lhs = ?rhs")
proof -
  let ?n = "length prices" and ?M = "nat (max fast slow) - 1"
  have len: "length ?lhs = length ?rhs" using f s by simp
  have "?lhs ! i = ?rhs ! i" if i: "i < ?n" for i
  proof -
    have l: "?lhs ! i = spec_pointwise_diff (spec_ema prices fast ! i) (spec_ema prices slow ! i)"
      using i f s by (simp add: spec_macd_line_def)
    show ?thesis
    proof (cases "i < ?M")
      case True
      then have "int i < fast - 1 \<or> int i < slow - 1" by linarith
      then have "spec_ema prices fast ! i = None \<or> spec_ema prices slow ! i = None"
        using spec_ema_nth [OF f i] spec_ema_nth [OF s i] by auto
      then have "?lhs ! i = None"
        unfolding l by (cases "spec_ema prices fast ! i") auto
      moreover have "?rhs ! i = None" using True i by (simp add: nth_append)
      ultimately show ?thesis by simp
    next
      case False
      then have ge: "?M \<le> i" by simp
      then have a: "\<not> int ?n < fast" "\<not> int i < fast - 1" "\<not> int ?n < slow" "\<not> int i < slow - 1"
        using i f s by linarith+
      have "?lhs ! i = Some (spec_ema_value prices fast (i - (nat fast - 1))
                           - spec_ema_value prices slow (i - (nat slow - 1)))"
        unfolding l using spec_ema_nth [OF f i] spec_ema_nth [OF s i] a by simp
      moreover have m: "min ?n ?M = ?M" using ge i by simp
      have b: "i - ?M < ?n - ?M" using ge i by linarith
      have c: "?M + (i - ?M) = i" using ge by simp
      have r1: "?rhs ! i =
                  map (\<lambda>i. Some (spec_ema_value prices fast (i - (nat fast - 1))
                           - spec_ema_value prices slow (i - (nat slow - 1))))
                    [?M..<?n] ! (i - ?M)"
        using ge by (simp only: nth_append m length_replicate) simp
      have b': "i - ?M < length [?M..<?n]" using b by simp
      have d: "?M + (i - ?M) < ?n" using i by (simp only: c)
      have r2: "[?M..<?n] ! (i - ?M) = i" by (simp only: nth_upt [OF d] c)
      have "?rhs ! i = Some (spec_ema_value prices fast (i - (nat fast - 1))
                           - spec_ema_value prices slow (i - (nat slow - 1)))"
        by (simp only: r1 nth_map [OF b'] r2)
      ultimately show ?thesis by simp
    qed
  qed
  then show ?thesis using len f s by (simp add: list_eq_iff_nth_eq)
qed

lemma spec_signal_shape:
  assumes g: "0 < signal" and long: "signal \<le> int (length vals)"
  shows "replicate u None @ spec_ema vals signal =
           replicate (u + (nat signal - 1)) None
           @ map (\<lambda>j. Some (spec_ema_value vals signal j)) [0..<length vals - (nat signal - 1)]"
  using long by (simp add: spec_ema_def replicate_add)

lemma spec_signal_short:
  assumes "int (length vals) < signal"
  shows "replicate u None @ spec_ema vals signal = replicate (u + length vals) None"
  using assms by (simp add: spec_ema_def replicate_add)

lemma spec_signal_nth:
  assumes g: "0 < signal" and long: "signal \<le> int (length vals)"
    and sl: "sl = replicate u None @ spec_ema vals signal"
  shows "\<forall>i < u + (nat signal - 1). sl ! i = None"
    and "\<forall>j. nat signal + j \<le> length vals \<longrightarrow>
           sl ! (u + (nat signal - 1) + j) = Some (spec_ema_value vals signal j)"
proof -
  let ?ys = "map (\<lambda>j. Some (spec_ema_value vals signal j)) [0..<length vals - (nat signal - 1)]"
  have shape: "sl = replicate (u + (nat signal - 1)) None @ ?ys"
    unfolding sl by (rule spec_signal_shape [OF g long])
  show "\<forall>i < u + (nat signal - 1). sl ! i = None"
    unfolding shape by (simp add: nth_append)
  show "\<forall>j. nat signal + j \<le> length vals \<longrightarrow>
           sl ! (u + (nat signal - 1) + j) = Some (spec_ema_value vals signal j)"
  proof (intro allI impI)
    fix j assume j: "nat signal + j \<le> length vals"
    then have k: "j < length vals - (nat signal - 1)" using g by linarith
    have "sl ! (u + (nat signal - 1) + j) = ?ys ! j"
      unfolding shape using nth_append_length_plus [of "replicate (u + (nat signal - 1)) None" ?ys j]
      by (simp only: length_replicate)
    also have "\<dots> = Some (spec_ema_value vals signal j)"
      using k by (simp del: spec_ema_value.simps)
    finally show "sl ! (u + (nat signal - 1) + j) = Some (spec_ema_value vals signal j)" .
  qed
qed

section \<open>Claims\<close>

text \<open>
  C7. For a positive window and a price list with at least \<open>window\<close> entries,
  \<^verbatim>\<open>calculate_ema\<close> and \<^verbatim>\<open>calculate_sma\<close> both return a series of the input's length,
  and at index \<open>window - 1\<close> (the seed index of the EMA) the two series hold the same
  value, the arithmetic mean of the first \<open>window\<close> prices.
\<close>

theorem ema_seed_equals_sma:
  assumes "0 < window" and "window \<le> int (length prices)"
  shows "\<exists>e s. calculate_ema prices window = Inr e \<and> calculate_sma prices window = Inr s
           \<and> length e = length prices \<and> length s = length prices
           \<and> e ! nat (window - 1) = s ! nat (window - 1)
           \<and> s ! nat (window - 1) = Some (sum_list (take (nat window) prices) / real_of_int window)"
proof -
  let ?mean = "sum_list (take (nat window) prices) / real_of_int window"
  from calculate_ema_long [OF assms]
  obtain ys where e: "calculate_ema prices window = Inr (nones (window - 1) @ Some ?mean # ys)"
    and ys: "length ys = nat (int (length prices) - window)"
    by blast
  let ?e = "nones (window - 1) @ Some ?mean # ys"
  let ?s = "map (\<lambda>i. if i < window - 1 then None
                          else Some (sum_list (py_slice prices (i - window + 1) (i + 1)) / real_of_int window))
                 (py_range 0 (int (length prices)))"
  have s: "calculate_sma prices window = Inr ?s"
    using assms by (simp add: calculate_sma_eq)
  have le: "length ?e = length prices" using assms ys by (simp add: nat_diff_distrib')
  have ls: "length ?s = length prices" by simp
  have en: "?e ! nat (window - 1) = Some ?mean"
    by (simp add: nth_append)
  have k: "nat (window - 1) < nat (int (length prices) - 0)" using assms by simp
  have "?s ! nat (window - 1) = Some (sum_list (py_slice prices 0 window) / real_of_int window)"
    using assms k by (simp add: nth_py_range)
  then have sn: "?s ! nat (window - 1) = Some ?mean"
    using assms by (simp add: py_slice_prefix)
  show ?thesis using e s le ls en sn by simp
qed

theorem ema_seed_equals_sma_witness:
  "(0::int) < 3 \<and> 3 \<le> int (length [1, 2, 3, 6 :: real])
   \<and> (\<exists>e s. calculate_ema [1, 2, 3, 6] 3 = Inr e \<and> calculate_sma [1, 2, 3, 6] 3 = Inr s
           \<and> length e = length [1, 2, 3, 6 :: real] \<and> length s = length [1, 2, 3, 6 :: real]
           \<and> e ! 2 = s ! 2 \<and> s ! 2 = Some 2)"
  using ema_seed_equals_sma [of 3 "[1, 2, 3, 6]"] by simp

text \<open>
  C4. For a positive window and a price list of length \<open>n\<close>, \<^verbatim>\<open>calculate_rsi\<close> returns
  a series of length \<open>n\<close> whose entry at index \<open>i\<close> is undefined exactly when
  \<open>i < window + 1\<close>: the undefined prefix has \<open>window + 1\<close> positions (all \<open>n\<close> of them
  when \<open>n < window + 1\<close>) and every later position is defined. For \<open>n < window + 1\<close>
  the whole output is undefined.
\<close>

theorem rsi_undefined_prefix:
  assumes "0 < window"
  shows "\<exists>r. calculate_rsi prices window = Inr r \<and> length r = length prices
            \<and> (\<forall>i < length prices. (r ! i = None) = (i < nat (window + 1)))
            \<and> (int (length prices) < window + 1 \<longrightarrow> r = replicate (length prices) None)"
proof (cases "int (length prices) < window + 1")
  case True
  then have "calculate_rsi prices window = Inr (replicate (length prices) None)"
    by (simp add: calculate_rsi_short nones_def)
  moreover have "\<forall>i < length prices. i < nat (window + 1)" using True by linarith
  ultimately show ?thesis by simp
next
  case False
  then have n: "window + 1 \<le> int (length prices)" by simp
  let ?f = "\<lambda>j. Some (spec_rsi_value
                 (spec_wilder_avg (gains_of (deltas_of prices)) window (Suc j))
                 (spec_wilder_avg (losses_of (deltas_of prices)) window (Suc j)))"
  let ?r = "None # nones window @ map ?f [0..<length prices - 1 - nat window]"
  have r: "calculate_rsi prices window = Inr ?r"
    by (rule calculate_rsi_long [OF assms n])
  have len: "length ?r = length prices" using assms n by simp
  have "(?r ! i = None) = (i < nat (window + 1))" if "i < length prices" for i
  proof (cases "i < nat (window + 1)")
    case True
    then have "i < length (None # nones window)" using assms by (simp add: nat_add_distrib)
    then have "?r ! i = (None # nones window) ! i"
      by (metis append_Cons nth_append)
    also have "\<dots> = None"
      using \<open>i < length (None # nones window)\<close>
      by (cases i) (simp_all add: nones_def)
    finally show ?thesis using True by simp
  next
    case False
    define j where "j = i - Suc (nat window)"
    have j: "i = Suc (nat window + j)" using False assms unfolding j_def by linarith
    with that have jlt: "j < length prices - 1 - nat window" by simp
    have "?r ! i = (nones window @ map ?f [0..<length prices - 1 - nat window]) ! (nat window + j)"
      using j by simp
    also have "\<dots> = map ?f [0..<length prices - 1 - nat window] ! j"
      by (simp add: nth_append)
    also have "\<dots> = ?f j" using jlt by simp
    finally show ?thesis using False by simp
  qed
  with r len False show ?thesis by simp
qed

theorem rsi_undefined_prefix_witness:
  "(0::int) < 2 \<and> calculate_rsi [1, 2, 4, 3] 2 = Inr [None, None, None, Some 60]
   \<and> calculate_rsi [1, 2] 2 = Inr [None, None]"
  using rsi_undefined_prefix [of 2 "[1, 2, 4, 3]"] rsi_undefined_prefix [of 2 "[1, 2]"]
  by (simp add: calculate_rsi_def deltas_of_def gains_of_def losses_of_def py_range_def
      py_slice_def nones_def rsi_step_def py_index_def upto.simps)

text \<open>
  C6. Every defined value of a series returned by \<^verbatim>\<open>calculate_rsi\<close> lies in the closed
  interval from 0 to 100. A pass of the loop body whose smoothed average loss is exactly
  zero emits exactly 100. For a positive window the function returns, and at every
  output position whose Wilder-smoothed average loss (as the specification defines it)
  is zero the series holds the defined value 100.
\<close>

theorem rsi_bounded_and_zero_loss:
  "(\<forall>r v. calculate_rsi prices window = Inr r \<longrightarrow> Some v \<in> set r \<longrightarrow> 0 \<le> v \<and> v \<le> 100)
   \<and> (\<forall>gains losses i ag al ag' al' v.
         rsi_step gains losses window i ag al = Inr (ag', al', v) \<longrightarrow> al' = 0 \<longrightarrow> v = 100)
   \<and> (0 < window \<longrightarrow>
        (\<exists>r. calculate_rsi prices window = Inr r
           \<and> (\<forall>k. nat window + 1 + k < length prices \<longrightarrow>
                 spec_wilder_avg (losses_of (deltas_of prices)) window (Suc k) = 0 \<longrightarrow>
                 r ! (nat window + 1 + k) = Some 100)))"
proof (intro conjI allI impI)
  fix r v
  assume "calculate_rsi prices window = Inr r" and "Some v \<in> set r"
  then show "0 \<le> v" and "v \<le> 100" using calculate_rsi_range by blast+
next
  fix gains losses i ag al ag' al' v
  assume "rsi_step gains losses window i ag al = Inr (ag', al', v)" and "al' = 0"
  then show "v = 100" using rsi_step_cases by (fastforce simp: spec_rsi_value_def)
next
  assume w: "0 < window"
  show "\<exists>r. calculate_rsi prices window = Inr r
           \<and> (\<forall>k. nat window + 1 + k < length prices \<longrightarrow>
                 spec_wilder_avg (losses_of (deltas_of prices)) window (Suc k) = 0 \<longrightarrow>
                 r ! (nat window + 1 + k) = Some 100)"
  proof (cases "int (length prices) < window + 1")
    case True
    then have "\<forall>k. \<not> nat window + 1 + k < length prices" by linarith
    then show ?thesis using True by (simp add: calculate_rsi_short)
  next
    case False
    then have n: "window + 1 \<le> int (length prices)" by simp
    let ?f = "\<lambda>j. Some (spec_rsi_value
                 (spec_wilder_avg (gains_of (deltas_of prices)) window (Suc j))
                 (spec_wilder_avg (losses_of (deltas_of prices)) window (Suc j)))"
    let ?r = "None # nones window @ map ?f [0..<length prices - 1 - nat window]"
    have r: "calculate_rsi prices window = Inr ?r"
      by (rule calculate_rsi_long [OF w n])
    have "?r ! (nat window + 1 + k) = Some 100"
      if k: "nat window + 1 + k < length prices"
        and z: "spec_wilder_avg (losses_of (deltas_of prices)) window (Suc k) = 0" for k
    proof -
      have klt: "k < length prices - 1 - nat window" using k by simp
      have "?r ! (nat window + 1 + k) =
            (nones window @ map ?f [0..<length prices - 1 - nat window]) ! (nat window + k)"
        by simp
      also have "\<dots> = map ?f [0..<length prices - 1 - nat window] ! k"
        by (simp add: nth_append)
      also have "\<dots> = ?f k" using klt by simp
      also have "\<dots> = Some 100" unfolding z by (simp add: spec_rsi_value_def)
      finally show ?thesis .
    qed
    with r show ?thesis by blast
  qed
qed

theorem rsi_bounded_and_zero_loss_witness:
  "calculate_rsi [1, 2, 4, 3] 2 = Inr [None, None, None, Some 60]
   \<and> Some 60 \<in> set [None, None, None, Some (60::real)] \<and> (0::real) \<le> 60 \<and> (60::real) \<le> 100
   \<and> rsi_step [1, 1, 1] [0, 0, 0] 2 2 1 0 = Inr (1, 0, 100)
   \<and> (0::int) < 2
   \<and> nat 2 + 1 + 0 < length [1, 2, 3, 4 :: real]
   \<and> spec_wilder_avg (losses_of (deltas_of [1, 2, 3, 4])) 2 (Suc 0) = 0
   \<and> calculate_rsi [1, 2, 3, 4] 2 = Inr [None, None, None, Some 100]"
proof -
  have r2: "replicate 2 (None :: real option) = [None, None]"
    by (simp add: numeral_2_eq_2)
  have e1: "calculate_rsi [1, 2, 4, 3] 2 = Inr [None, None, None, Some 60]"
    by (simp add: calculate_rsi_def deltas_of_def gains_of_def losses_of_def py_range_def
        py_slice_def nones_def rsi_step_def py_index_def upto.simps r2)
  have e2: "calculate_rsi [1, 2, 3, 4] 2 = Inr [None, None, None, Some 100]"
    by (simp add: calculate_rsi_def deltas_of_def gains_of_def losses_of_def py_range_def
        py_slice_def nones_def rsi_step_def py_index_def upto.simps r2)
  have st: "rsi_step [1, 1, 1] [0, 0, 0] 2 2 1 0 = Inr (1, 0, 100)"
    by (simp add: rsi_step_def py_index_def)
  have u: "[1..3::int] = [1, 2, 3]"
    by (simp add: upto.simps)
  have z: "spec_wilder_avg (losses_of (deltas_of [1, 2, 3, 4])) 2 (Suc 0) = 0"
    by (simp add: deltas_of_def losses_of_def py_range_def u)
  have b: "Some 60 \<in> set [None, None, None, Some (60::real)]" by simp
  from rsi_bounded_and_zero_loss [of "[1, 2, 4, 3]" 2, THEN conjunct1, rule_format, OF e1 b]
  have range: "0 \<le> (60::real) \<and> (60::real) \<le> 100" .
  have idx: "nat 2 + 1 + 0 < length [1, 2, 3, 4 :: real]" by simp
  have pos: "(0::int) < 2" by simp
  from range e1 b st pos idx z e2 show ?thesis by (intro conjI) blast+
qed

text \<open>
  C8. Whenever \<^verbatim>\<open>calculate_bollinger_bands\<close> returns three bands for a multiplier
  \<open>k \<ge> 0\<close> and all three are defined at an index \<open>i\<close>, the upper band there is the
  middle band plus \<open>k\<close> times the population standard deviation of the trailing window
  \<open>prices[i-window+1..i]\<close>, the lower band is the middle band minus the same quantity,
  the middle band is the mean of that window, and lower \<open>\<le>\<close> middle \<open>\<le>\<close> upper.
\<close>

theorem bollinger_bands_formula:
  assumes res: "calculate_bollinger_bands prices window k = Inr (upper, middle, lower)"
    and k: "0 \<le> k"
    and i: "i < length prices"
    and u: "upper ! i = Some u" and m: "middle ! i = Some m" and l: "lower ! i = Some l"
  shows "u = m + k * spec_population_std_dev (spec_trailing_window prices window i)
       \<and> l = m - k * spec_population_std_dev (spec_trailing_window prices window i)
       \<and> m = spec_mean_at prices window i
       \<and> l \<le> m \<and> m \<le> u"
proof -
  have ne: "prices \<noteq> []" using i by auto
  have w: "0 < window"
  proof (rule ccontr)
    assume "\<not> 0 < window"
    then have "window \<le> 0" by simp
    from calculate_bollinger_bands_nonpositive [OF this ne, of k] res show False by simp
  qed
  have n: "window \<le> int (length prices)"
  proof (rule ccontr)
    assume "\<not> window \<le> int (length prices)"
    then have "int (length prices) < window" by simp
    from calculate_bollinger_bands_short [OF this, of k] res
    have "upper = nones (int (length prices))" by simp
    then have "upper ! i = None" using i by (simp add: nones_def)
    with u show False by simp
  qed
  let ?sd = "spec_population_std_dev (spec_trailing_window prices window i)"
  let ?U = "\<lambda>j. if j < window - 1 then None
                  else Some (spec_mean_at prices window (nat j)
                         + k * spec_population_std_dev (spec_trailing_window prices window (nat j)))"
  let ?L = "\<lambda>j. if j < window - 1 then None
                  else Some (spec_mean_at prices window (nat j)
                         - k * spec_population_std_dev (spec_trailing_window prices window (nat j)))"
  from calculate_bollinger_bands_long [OF w n, of k] res
  have up: "upper = map ?U (py_range 0 (int (length prices)))"
    and lo: "lower = map ?L (py_range 0 (int (length prices)))"
    and mid: "calculate_sma prices window = Inr middle"
    by auto
  have ui: "upper ! i = ?U (int i)" unfolding up using i by (simp add: nth_py_range)
  have li: "lower ! i = ?L (int i)" unfolding lo using i by (simp add: nth_py_range)
  have ge: "\<not> int i < window - 1" using ui u by (auto split: if_splits)
  from sma_nth [OF w n i] mid m ge have mv: "m = spec_mean_at prices window i" by auto
  have uv: "u = m + k * ?sd" using ui u ge mv by simp
  have lv: "l = m - k * ?sd" using li l ge mv by simp
  have "0 \<le> k * ?sd" using k spec_population_std_dev_nonneg by simp
  then show ?thesis using uv lv mv by simp
qed

theorem bollinger_bands_formula_witness:
  "calculate_bollinger_bands [1, 3] 2 2 = Inr ([None, Some 4], [None, Some 2], [None, Some 0])
   \<and> (0::real) \<le> 2 \<and> (1::nat) < length [1, 3 :: real]
   \<and> spec_population_std_dev (spec_trailing_window [1, 3] 2 1) = 1
   \<and> (4::real) = 2 + 2 * spec_population_std_dev (spec_trailing_window [1, 3] 2 1)
   \<and> (0::real) = 2 - 2 * spec_population_std_dev (spec_trailing_window [1, 3] 2 1)"
proof -
  have r: "py_range 0 2 = [0, 1]" by (simp add: py_range_def upto.simps)
  have r2: "replicate 2 (None :: real option) = [None, None]" by (simp add: numeral_2_eq_2)
  have s0: "py_slice [1, 3 :: real] 0 2 = [1, 3]" by (simp add: py_slice_def)
  have sd: "spec_population_std_dev (spec_trailing_window [1, 3] 2 1) = 1"
    by (simp add: spec_population_std_dev_def spec_trailing_window_def)
  have e: "calculate_bollinger_bands [1, 3] 2 2 = Inr ([None, Some 4], [None, Some 2], [None, Some 0])"
    by (simp add: calculate_bollinger_bands_def calculate_sma_def r s0 np_std_def py_index_def)
  have k: "(0::real) \<le> 2" by simp
  have i: "(1::nat) < length [1, 3 :: real]" by simp
  have "(4::real) = 2 + 2 * spec_population_std_dev (spec_trailing_window [1, 3] 2 1)
       \<and> (0::real) = 2 - 2 * spec_population_std_dev (spec_trailing_window [1, 3] 2 1)
       \<and> (2::real) = spec_mean_at [1, 3] 2 1
       \<and> (0::real) \<le> 2 \<and> (2::real) \<le> 4"
    by (rule bollinger_bands_formula [OF e k i]) simp_all
  with e k i sd show ?thesis by blast
qed

text \<open>
  C2. For every price list, \<^verbatim>\<open>calculate_macd(prices, 12, 26, 9)\<close> returns. Its MACD
  line is the specification's: EMA(12) minus EMA(26), undefined on the first 25 positions
  (everywhere for fewer than 26 prices). Its signal line is the specification's EMA(9) of
  the compacted defined MACD values, computed on that sequence as a fresh series, behind
  as many undefined markers as the MACD line has undefined entries, so the input's length
  is restored: with at least 9 defined MACD values the signal line is undefined before
  position (undefined count + 8), holds there the mean of the first 9 compacted values
  (the seed), and each later entry is the next compacted value times 2/10 plus the
  previous signal value times 8/10. The histogram is the pointwise difference. With fewer
  than 9 defined MACD values the signal line and the histogram are entirely undefined.
\<close>

theorem macd_signal_line:
  "\<exists>macd_line signal_line histogram.
      calculate_macd prices 12 26 9 = Inr (macd_line, signal_line, histogram)
    \<and> macd_line = spec_macd_line prices 12 26
    \<and> signal_line =
        replicate (undefined_count macd_line) None @ spec_ema (spec_compact macd_line) 9
    \<and> histogram = map2 spec_pointwise_diff macd_line signal_line
    \<and> length macd_line = length prices \<and> length signal_line = length prices
    \<and> length histogram = length prices
    \<and> undefined_count macd_line = min (length prices) 25
    \<and> spec_compact macd_line =
        map (\<lambda>i. spec_ema_value prices 12 (i - 11) - spec_ema_value prices 26 (i - 25))
          [25..<length prices]
    \<and> (9 \<le> length (spec_compact macd_line) \<longrightarrow>
          (\<forall>i < undefined_count macd_line + 8. signal_line ! i = None)
        \<and> signal_line ! (undefined_count macd_line + 8) =
            Some (sum_list (take 9 (spec_compact macd_line)) / 9)
        \<and> (\<forall>j. 9 + j < length (spec_compact macd_line) \<longrightarrow>
              (\<exists>prev. signal_line ! (undefined_count macd_line + 8 + j) = Some prev
                    \<and> signal_line ! (undefined_count macd_line + 9 + j) =
                        Some (spec_compact macd_line ! (9 + j) * (2 / 10)
                              + prev * (1 - 2 / 10)))))
    \<and> (length (spec_compact macd_line) < 9 \<longrightarrow>
          signal_line = replicate (length prices) None
        \<and> histogram = replicate (length prices) None)"
proof -
  have p: "(0::int) < 12" "(0::int) < 26" "(0::int) < 9" by simp_all
  from calculate_macd_spec [OF p, of prices]
  obtain ml sl h where res: "calculate_macd prices 12 26 9 = Inr (ml, sl, h)"
    and ml: "ml = spec_macd_line prices 12 26"
    and sl: "sl = replicate (undefined_count ml) None @ spec_ema (spec_compact ml) 9"
    and h: "h = map2 spec_pointwise_diff ml sl"
    and lens: "length ml = length prices" "length sl = length prices" "length h = length prices"
    by blast
  let ?D = "\<lambda>i. spec_ema_value prices 12 (i - 11) - spec_ema_value prices 26 (i - 25)"
  have shape: "ml = replicate (min (length prices) 25) None
                    @ map (\<lambda>i. Some (?D i)) [25..<length prices]"
    unfolding ml using spec_macd_line_shape [OF p(1,2), of prices]
    by (simp del: spec_ema_value.simps)
  have u: "undefined_count ml = min (length prices) 25"
    by (subst shape) (rule undefined_count_replicate_map)
  have vals: "spec_compact ml = map ?D [25..<length prices]"
    by (subst shape) (rule spec_compact_replicate_map)
  let ?u = "undefined_count ml" and ?vals = "spec_compact ml"
  have long: "9 \<le> length ?vals \<longrightarrow>
          (\<forall>i < ?u + 8. sl ! i = None)
        \<and> sl ! (?u + 8) = Some (sum_list (take 9 ?vals) / 9)
        \<and> (\<forall>j. 9 + j < length ?vals \<longrightarrow>
              (\<exists>prev. sl ! (?u + 8 + j) = Some prev
                    \<and> sl ! (?u + 9 + j) = Some (?vals ! (9 + j) * (2 / 10) + prev * (1 - 2 / 10))))"
  proof
    assume "9 \<le> length ?vals"
    then have lg: "(9::int) \<le> int (length ?vals)" by simp
    note nth = spec_signal_nth [OF p(3) lg sl]
    have a: "\<forall>i < ?u + 8. sl ! i = None" using nth(1) by simp
    have at: "nat 9 + j \<le> length ?vals \<Longrightarrow> sl ! (?u + 8 + j) = Some (spec_ema_value ?vals 9 j)" for j
      using nth(2) by simp
    have b: "sl ! (?u + 8) = Some (sum_list (take 9 ?vals) / 9)"
      using at [of 0] \<open>9 \<le> length ?vals\<close> by simp
    have c: "\<exists>prev. sl ! (?u + 8 + j) = Some prev
                    \<and> sl ! (?u + 9 + j) = Some (?vals ! (9 + j) * (2 / 10) + prev * (1 - 2 / 10))"
      if j: "9 + j < length ?vals" for j
    proof -
      have 1: "sl ! (?u + 8 + j) = Some (spec_ema_value ?vals 9 j)"
        using at [of j] j by simp
      have e: "?u + 8 + Suc j = ?u + 9 + j" by simp
      have "sl ! (?u + 8 + Suc j) = Some (spec_ema_value ?vals 9 (Suc j))"
        using at [of "Suc j"] j by simp
      then have "sl ! (?u + 9 + j) = Some (spec_ema_value ?vals 9 (Suc j))"
        by (simp only: e)
      then have 2: "sl ! (?u + 9 + j) =
                      Some (?vals ! (9 + j) * (2 / 10) + spec_ema_value ?vals 9 j * (1 - 2 / 10))"
        by simp
      from 1 2 show ?thesis by blast
    qed
    from a b c show "(\<forall>i < ?u + 8. sl ! i = None)
        \<and> sl ! (?u + 8) = Some (sum_list (take 9 ?vals) / 9)
        \<and> (\<forall>j. 9 + j < length ?vals \<longrightarrow>
              (\<exists>prev. sl ! (?u + 8 + j) = Some prev
                    \<and> sl ! (?u + 9 + j) = Some (?vals ! (9 + j) * (2 / 10) + prev * (1 - 2 / 10))))"
      by blast
  qed
  have short: "length ?vals < 9 \<longrightarrow>
          sl = replicate (length prices) None \<and> h = replicate (length prices) None"
    using macd_short_signal [OF p res] by (simp add: defined_values_spec)
  from res ml sl h lens u vals long short show ?thesis by blast
qed

theorem macd_signal_line_witness:
  "calculate_macd
       [7, 7, 7, 7, 7, 7, 7, 7, 7, 7, 7,
        7, 7, 7, 7, 7, 7, 7, 7, 7, 7, 7,
        7, 7, 7, 7, 7, 7, 7, 7, 7, 7, 7,
        3166, 1429] 12 26 9 =
     Inr ([None, None, None, None, None, None, None, None, None, None, None,
        None, None, None, None, None, None, None, None, None, None, None,
        None, None, None, Some 0, Some 0, Some 0, Some 0, Some 0, Some 0, Some 0, Some 0,
        Some 252, Some 308],
          [None, None, None, None, None, None, None, None, None, None, None,
        None, None, None, None, None, None, None, None, None, None, None,
        None, None, None, None, None, None, None, None, None, None, None,
        Some 28, Some 84],
          [None, None, None, None, None, None, None, None, None, None, None,
        None, None, None, None, None, None, None, None, None, None, None,
        None, None, None, None, None, None, None, None, None, None, None,
        Some 224, Some 224])
   \<and> undefined_count
       [None, None, None, None, None, None, None, None, None, None, None,
        None, None, None, None, None, None, None, None, None, None, None,
        None, None, None, Some 0, Some 0, Some 0, Some 0, Some 0, Some 0, Some 0, Some 0,
        Some 252, Some 308] = 25
   \<and> spec_compact
       [None, None, None, None, None, None, None, None, None, None, None,
        None, None, None, None, None, None, None, None, None, None, None,
        None, None, None, Some 0, Some 0, Some 0, Some 0, Some 0, Some 0, Some 0, Some 0,
        Some 252, Some 308] = [0, 0, 0, 0, 0, 0, 0, 0, 252, 308]
   \<and> 9 \<le> length (spec_compact
       [None, None, None, None, None, None, None, None, None, None, None,
        None, None, None, None, None, None, None, None, None, None, None,
        None, None, None, Some 0, Some 0, Some 0, Some 0, Some 0, Some 0, Some 0, Some 0,
        Some 252, Some 308])
   \<and> ([None, None, None, None, None, None, None, None, None, None, None,
        None, None, None, None, None, None, None, None, None, None, None,
        None, None, None, None, None, None, None, None, None, None, None,
        Some 28, Some 84] :: series) ! (25 + 8) = Some (sum_list (take 9 ([0, 0, 0, 0, 0, 0, 0, 0, 252, 308] :: real list)) / 9)
   \<and> sum_list (take 9 ([0, 0, 0, 0, 0, 0, 0, 0, 252, 308] :: real list)) / 9 = (28::real)
   \<and> ([None, None, None, None, None, None, None, None, None, None, None,
        None, None, None, None, None, None, None, None, None, None, None,
        None, None, None, None, None, None, None, None, None, None, None,
        Some 28, Some 84] :: series) ! (25 + 9 + 0) = Some (308 * (2 / 10) + 28 * (1 - 2 / 10) :: real)
   \<and> (308 * (2 / 10) + 28 * (1 - 2 / 10) = (84::real))
   \<and> calculate_macd [1, 2] 12 26 9 = Inr ([None, None], [None, None], [None, None])
   \<and> length (spec_compact [None, None]) < 9"
proof -
  let ?P = "[7, 7, 7, 7, 7, 7, 7, 7, 7, 7, 7,
        7, 7, 7, 7, 7, 7, 7, 7, 7, 7, 7,
        7, 7, 7, 7, 7, 7, 7, 7, 7, 7, 7,
        3166, 1429] :: real list"
  let ?macd = "[None, None, None, None, None, None, None, None, None, None, None,
        None, None, None, None, None, None, None, None, None, None, None,
        None, None, None, Some 0, Some 0, Some 0, Some 0, Some 0, Some 0, Some 0, Some 0,
        Some 252, Some 308] :: series"
  let ?sig = "[None, None, None, None, None, None, None, None, None, None, None,
        None, None, None, None, None, None, None, None, None, None, None,
        None, None, None, None, None, None, None, None, None, None, None,
        Some 28, Some 84] :: series"
  let ?H = "[None, None, None, None, None, None, None, None, None, None, None,
        None, None, None, None, None, None, None, None, None, None, None,
        None, None, None, None, None, None, None, None, None, None, None,
        Some 224, Some 224] :: series"
  let ?V = "[0, 0, 0, 0, 0, 0, 0, 0, 252, 308] :: real list"
  have r10: "py_range 9 10 = [9]" "py_range 0 2 = [0, 1]"
    by (simp_all add: py_range_def upto.simps)
  have e12: "calculate_ema ?P 12 = Inr [None, None, None, None, None, None, None, None, None, None, None,
        Some 7, Some 7, Some 7, Some 7, Some 7, Some 7, Some 7, Some 7, Some 7, Some 7, Some 7,
        Some 7, Some 7, Some 7, Some 7, Some 7, Some 7, Some 7, Some 7, Some 7, Some 7, Some 7,
        Some 493, Some 637]"
    by (simp add: calculate_ema_def py_range_def upto.simps py_slice_def nones_def
        py_index_def eval_nat_numeral)
  have e26: "calculate_ema ?P 26 = Inr [None, None, None, None, None, None, None, None, None, None, None,
        None, None, None, None, None, None, None, None, None, None, None,
        None, None, None, Some 7, Some 7, Some 7, Some 7, Some 7, Some 7, Some 7, Some 7,
        Some 241, Some 329]"
    by (simp add: calculate_ema_def py_range_def upto.simps py_slice_def nones_def
        py_index_def eval_nat_numeral)
  have ml: "diff_loop [None, None, None, None, None, None, None, None, None, None, None,
        Some 7, Some 7, Some 7, Some 7, Some 7, Some 7, Some 7, Some 7, Some 7, Some 7, Some 7,
        Some 7, Some 7, Some 7, Some 7, Some 7, Some 7, Some 7, Some 7, Some 7, Some 7, Some 7,
        Some 493, Some 637]
              [None, None, None, None, None, None, None, None, None, None, None,
        None, None, None, None, None, None, None, None, None, None, None,
        None, None, None, Some 7, Some 7, Some 7, Some 7, Some 7, Some 7, Some 7, Some 7,
        Some 241, Some 329] (py_range 0 35) [] = Inr ?macd"
    by (simp add: py_range_def upto.simps diff_step_def py_index_def)
  have dv: "defined_values ?macd = ?V" by simp
  have se: "calculate_ema ?V 9 = Inr [None, None, None, None, None, None, None, None, Some 28, Some 84]"
    by (simp add: calculate_ema_def r10 py_slice_def nones_def py_index_def eval_nat_numeral)
  have n25: "nones 25 = [None, None, None, None, None, None, None, None, None, None, None,
      None, None, None, None, None, None, None, None, None, None, None, None, None, None]"
    by (simp add: nones_def eval_nat_numeral)
  have hl: "diff_loop ?macd ?sig (py_range 0 35) [] = Inr ?H"
    by (simp add: py_range_def upto.simps diff_step_def py_index_def)
  have e: "calculate_macd ?P 12 26 9 = Inr (?macd, ?sig, ?H)"
    unfolding calculate_macd_def Let_def
    by (simp add: e12 e26 ml dv se n25 hl)
  have uc: "undefined_count ?macd = 25" by (simp add: undefined_count_def)
  have sc: "spec_compact ?macd = ?V" by (simp add: spec_compact_def)
  have ge: "9 \<le> length (spec_compact ?macd)" by (simp add: sc)
  have j0: "9 + 0 < length (spec_compact ?macd)" by (simp add: sc)
  from macd_signal_line [of ?P]
  obtain m s h where res: "calculate_macd ?P 12 26 9 = Inr (m, s, h)"
    and long: "9 \<le> length (spec_compact m) \<longrightarrow>
          (\<forall>i < undefined_count m + 8. s ! i = None)
        \<and> s ! (undefined_count m + 8) = Some (sum_list (take 9 (spec_compact m)) / 9)
        \<and> (\<forall>j. 9 + j < length (spec_compact m) \<longrightarrow>
              (\<exists>prev. s ! (undefined_count m + 8 + j) = Some prev
                    \<and> s ! (undefined_count m + 9 + j) =
                        Some (spec_compact m ! (9 + j) * (2 / 10) + prev * (1 - 2 / 10))))"
    by blast
  from res e have ms: "m = ?macd" "s = ?sig" by simp_all
  from long ge have seed: "?sig ! (undefined_count ?macd + 8) = Some (sum_list (take 9 (spec_compact ?macd)) / 9)"
    unfolding ms by blast
  from long ge j0 obtain prev where pr: "?sig ! (undefined_count ?macd + 8 + 0) = Some prev"
    and nx: "?sig ! (undefined_count ?macd + 9 + 0) = Some (spec_compact ?macd ! (9 + 0) * (2 / 10) + prev * (1 - 2 / 10))"
    unfolding ms by blast
  have c5: "?sig ! (25 + 8) = Some (sum_list (take 9 ?V) / 9)"
    using seed by (simp only: uc sc)
  have pv: "prev = 28" using pr by (simp add: uc)
  have v9: "?V ! (9 + 0) = 308" by simp
  have c7: "?sig ! (25 + 9 + 0) = Some (308 * (2 / 10) + 28 * (1 - 2 / 10))"
    using nx by (simp only: uc sc pv v9)
  have c6: "sum_list (take 9 ?V) / 9 = (28::real)" by simp
  have c8: "308 * (2 / 10) + 28 * (1 - 2 / 10) = (84::real)" by simp
  have s2: "calculate_macd [1, 2] 12 26 9 = Inr ([None, None], [None, None], [None, None])"
    by (simp add: calculate_macd_def calculate_ema_def nones_def r10 diff_step_def py_index_def
        numeral_2_eq_2)
  have s3: "length (spec_compact [None, None]) < 9" by (simp add: spec_compact_def)
  show ?thesis by (intro conjI) (rule e uc sc ge c5 c6 c7 c8 s2 s3)+
qed

text \<open>
  C1. For every price list and positive window parameters, \<^verbatim>\<open>calculate_sma\<close>,
  \<^verbatim>\<open>calculate_ema\<close>, \<^verbatim>\<open>calculate_rsi\<close>, the three series of
  \<^verbatim>\<open>calculate_bollinger_bands\<close> and the three series of \<^verbatim>\<open>calculate_macd\<close> are
  returned without an exception and have the length of the price list. An input shorter
  than the required window (\<open>window\<close>; \<open>window + 1\<close> for the RSI; the larger EMA window
  for the MACD line, and that plus \<open>signal - 1\<close> for its signal line and histogram)
  gives an all-undefined series of the input's length.
\<close>

theorem library_length_preservation:
  assumes w: "0 < window" and f: "0 < fast" and s: "0 < slow" and g: "0 < signal"
  shows "(\<exists>sma. calculate_sma prices window = Inr sma \<and> length sma = length prices
            \<and> (int (length prices) < window \<longrightarrow> sma = replicate (length prices) None))
       \<and> (\<exists>ema. calculate_ema prices window = Inr ema \<and> length ema = length prices
            \<and> (int (length prices) < window \<longrightarrow> ema = replicate (length prices) None))
       \<and> (\<exists>rsi. calculate_rsi prices window = Inr rsi \<and> length rsi = length prices
            \<and> (int (length prices) < window + 1 \<longrightarrow> rsi = replicate (length prices) None))
       \<and> (\<exists>upper middle lower.
              calculate_bollinger_bands prices window num_std = Inr (upper, middle, lower)
            \<and> length upper = length prices \<and> length middle = length prices
            \<and> length lower = length prices
            \<and> (int (length prices) < window \<longrightarrow>
                  upper = replicate (length prices) None
                \<and> middle = replicate (length prices) None
                \<and> lower = replicate (length prices) None))
       \<and> (\<exists>macd_line signal_line histogram.
              calculate_macd prices fast slow signal = Inr (macd_line, signal_line, histogram)
            \<and> length macd_line = length prices \<and> length signal_line = length prices
            \<and> length histogram = length prices
            \<and> (int (length prices) < max fast slow \<longrightarrow>
                  macd_line = replicate (length prices) None)
            \<and> (int (length prices) < max fast slow + signal - 1 \<longrightarrow>
                  signal_line = replicate (length prices) None
                \<and> histogram = replicate (length prices) None))"
proof (intro conjI)
  show "\<exists>sma. calculate_sma prices window = Inr sma \<and> length sma = length prices
            \<and> (int (length prices) < window \<longrightarrow> sma = replicate (length prices) None)"
    using w by (simp add: calculate_sma_eq nones_def)
next
  obtain e where e: "calculate_ema prices window = Inr e" "length e = length prices"
    using calculate_ema_total [OF w] by blast
  moreover have "int (length prices) < window \<longrightarrow> e = replicate (length prices) None"
    using e(1) by (auto simp: calculate_ema_short nones_def)
  ultimately show "\<exists>ema. calculate_ema prices window = Inr ema \<and> length ema = length prices
            \<and> (int (length prices) < window \<longrightarrow> ema = replicate (length prices) None)"
    by blast
next
  from calculate_rsi_total [OF w, of prices]
  show "\<exists>rsi. calculate_rsi prices window = Inr rsi \<and> length rsi = length prices
            \<and> (int (length prices) < window + 1 \<longrightarrow> rsi = replicate (length prices) None)"
    by blast
next
  show "\<exists>upper middle lower.
              calculate_bollinger_bands prices window num_std = Inr (upper, middle, lower)
            \<and> length upper = length prices \<and> length middle = length prices
            \<and> length lower = length prices
            \<and> (int (length prices) < window \<longrightarrow>
                  upper = replicate (length prices) None
                \<and> middle = replicate (length prices) None
                \<and> lower = replicate (length prices) None)"
  proof (cases "int (length prices) < window")
    case True
    then show ?thesis by (simp add: calculate_bollinger_bands_short nones_def)
  next
    case False
    then have "window \<le> int (length prices)" by simp
    from calculate_bollinger_bands_long [OF w this, of num_std] False
    show ?thesis by auto
  qed
next
  from calculate_macd_eq [OF f s g, of prices]
  obtain ml sl h where res: "calculate_macd prices fast slow signal = Inr (ml, sl, h)"
    and lens: "length ml = length prices" "length sl = length prices" "length h = length prices"
    by blast
  have a: "int (length prices) < max fast slow \<longrightarrow> ml = replicate (length prices) None"
    using macd_line_short_input [OF f s g res] by blast
  have b: "int (length prices) < max fast slow + signal - 1 \<longrightarrow>
             sl = replicate (length prices) None \<and> h = replicate (length prices) None"
    using macd_short_input [OF f s g res] by blast
  from res lens a b
  show "\<exists>macd_line signal_line histogram.
              calculate_macd prices fast slow signal = Inr (macd_line, signal_line, histogram)
            \<and> length macd_line = length prices \<and> length signal_line = length prices
            \<and> length histogram = length prices
            \<and> (int (length prices) < max fast slow \<longrightarrow>
                  macd_line = replicate (length prices) None)
            \<and> (int (length prices) < max fast slow + signal - 1 \<longrightarrow>
                  signal_line = replicate (length prices) None
                \<and> histogram = replicate (length prices) None)"
    by blast
qed

theorem library_length_preservation_witness:
  "(0::int) < 2 \<and> (0::int) < 1
   \<and> int (length [1 :: real]) < 2 \<and> int (length [1 :: real]) < 2 + 1
   \<and> int (length [1 :: real]) < max 1 2 \<and> int (length [1 :: real]) < max 1 2 + 2 - 1
   \<and> calculate_sma [1] 2 = Inr (replicate (length [1 :: real]) None)
   \<and> calculate_ema [1] 2 = Inr (replicate (length [1 :: real]) None)
   \<and> calculate_rsi [1] 2 = Inr (replicate (length [1 :: real]) None)
   \<and> calculate_bollinger_bands [1] 2 2 =
        Inr (replicate (length [1 :: real]) None, replicate (length [1 :: real]) None,
             replicate (length [1 :: real]) None)
   \<and> calculate_macd [1] 1 2 2 =
        Inr (replicate (length [1 :: real]) None, replicate (length [1 :: real]) None,
             replicate (length [1 :: real]) None)
   \<and> calculate_sma [1, 3] 2 = Inr [None, Some 2]
   \<and> calculate_ema [1, 3] 2 = Inr [None, Some 2]
   \<and> calculate_macd [1, 3] 1 2 2 = Inr ([None, Some 1], [None, None], [None, None])"
proof -
  have p: "(0::int) < 2" "(0::int) < 1" by simp_all
  have h: "int (length [1 :: real]) < 2" "int (length [1 :: real]) < 2 + 1"
    "int (length [1 :: real]) < max 1 2" "int (length [1 :: real]) < max 1 2 + 2 - 1"
    by simp_all
  note T = library_length_preservation [OF p(1) p(2) p(1) p(1), of "[1]" 2]
  have a1: "calculate_sma [1] 2 = Inr (replicate (length [1 :: real]) None)"
    using T h by auto
  have a2: "calculate_ema [1] 2 = Inr (replicate (length [1 :: real]) None)"
    using T h by auto
  have a3: "calculate_rsi [1] 2 = Inr (replicate (length [1 :: real]) None)"
    using T h by auto
  have a4: "calculate_bollinger_bands [1] 2 2 =
        Inr (replicate (length [1 :: real]) None, replicate (length [1 :: real]) None,
             replicate (length [1 :: real]) None)"
    using T h by auto
  have a5: "calculate_macd [1] 1 2 2 =
        Inr (replicate (length [1 :: real]) None, replicate (length [1 :: real]) None,
             replicate (length [1 :: real]) None)"
    using T h by auto
  have r: "py_range 0 2 = [0, 1]" "py_range 1 2 = [1]" "py_range 2 2 = []"
    by (simp_all add: py_range_def upto.simps)
  have s0: "py_slice [1, 3 :: real] 0 2 = [1, 3]" "py_slice [1, 3 :: real] 0 1 = [1]"
    by (simp_all add: py_slice_def)
  have b1: "calculate_sma [1, 3] 2 = Inr [None, Some 2]"
    by (simp add: calculate_sma_def r s0)
  have b2: "calculate_ema [1, 3] 2 = Inr [None, Some 2]"
    by (simp add: calculate_ema_def r s0 nones_def)
  have b3: "calculate_ema [1, 3] 1 = Inr [Some 1, Some 3]"
    by (simp add: calculate_ema_def r s0 nones_def py_index_def)
  have b4: "calculate_ema [1] 2 = Inr [None]"
    by (simp add: calculate_ema_def nones_def)
  have b5: "calculate_macd [1, 3] 1 2 2 = Inr ([None, Some 1], [None, None], [None, None])"
    by (simp add: calculate_macd_def b2 b3 b4 r diff_step_def py_index_def nones_def numeral_2_eq_2)
  from p h a1 a2 a3 a4 a5 b1 b2 b5 show ?thesis by (intro conjI) blast+
qed

text \<open>
  C10. When the input mapping has no entry \<^verbatim>\<open>'Time Series (Daily)'\<close>,
  \<^verbatim>\<open>process_stock_data\<close> returns \<^verbatim>\<open>None\<close>: it raises nothing, and the result does not
  depend on anything else in the input.
\<close>

theorem no_time_series_returns_none:
  assumes "time_series_daily data = None"
  shows "process_stock_data to_float to_int data = Inr None"
  using assms by (simp add: process_stock_data_def)

theorem no_time_series_returns_none_witness:
  "time_series_daily \<lparr>time_series_daily = None, meta_data = None\<rparr> = None
   \<and> process_stock_data (map_of []) (map_of [])
        \<lparr>time_series_daily = None, meta_data = None\<rparr> = Inr None"
  using no_time_series_returns_none
    [of "\<lparr>time_series_daily = None, meta_data = None\<rparr>" "map_of []" "map_of []"]
  by simp

text \<open>
  C9. When the record of some selected date lacks a required field (open, high, low,
  close, volume) or holds a text there that the numeric conversion rejects, the window
  builder fails, and \<^verbatim>\<open>process_stock_data\<close> fails with the same exception for the whole
  request: \<^verbatim>\<open>KeyError\<close> for a missing field or \<^verbatim>\<open>ValueError\<close> for a rejected text,
  the two exceptions the specification calls a malformed record. Whenever the window
  builder does return, its dates are exactly the selected dates (none dropped) and its six
  series have one length.
\<close>

theorem malformed_record_fails_request:
  assumes ts: "time_series_daily data = Some ts"
    and sel: "date \<in> set (sorted_dates_of ts)"
    and bad: "spec_malformed to_float to_int ts date"
  shows "(\<exists>e. build_window to_float to_int ts = Inl e \<and> (e = KeyError \<or> e = ValueError)
            \<and> process_stock_data to_float to_int data = Inl e)
       \<and> (\<forall>ts' w. build_window to_float to_int ts' = Inr w \<longrightarrow>
             wb_dates w = sorted_dates_of ts'
           \<and> length (wb_prices w) = length (wb_dates w)
           \<and> length (wb_volumes w) = length (wb_dates w)
           \<and> length (wb_highs w) = length (wb_dates w)
           \<and> length (wb_lows w) = length (wb_dates w)
           \<and> length (wb_opens w) = length (wb_dates w))"
proof
  from build_loop_fails [OF sel bad]
  obtain e where e: "build_window to_float to_int ts = Inl e" "e = KeyError \<or> e = ValueError"
    unfolding build_window_def by blast
  with process_stock_data_error [OF ts e(1)]
  show "\<exists>e. build_window to_float to_int ts = Inl e \<and> (e = KeyError \<or> e = ValueError)
            \<and> process_stock_data to_float to_int data = Inl e"
    by blast
next
  show "\<forall>ts' w. build_window to_float to_int ts' = Inr w \<longrightarrow>
             wb_dates w = sorted_dates_of ts'
           \<and> length (wb_prices w) = length (wb_dates w)
           \<and> length (wb_volumes w) = length (wb_dates w)
           \<and> length (wb_highs w) = length (wb_dates w)
           \<and> length (wb_lows w) = length (wb_dates w)
           \<and> length (wb_opens w) = length (wb_dates w)"
    using build_window_ok by blast
qed

theorem malformed_record_fails_request_witness:
  "time_series_daily
     \<lparr>time_series_daily = Some [(''2024-01-02'',
        [(''1. open'', ''1.0''), (''2. high'', ''1.0''), (''3. low'', ''1.0''),
         (''4. close'', ''abc'')])],
      meta_data = Some [(''2. Symbol'', ''IBM''), (''3. Last Refreshed'', ''2024-01-02'')]\<rparr>
     = Some [(''2024-01-02'',
        [(''1. open'', ''1.0''), (''2. high'', ''1.0''), (''3. low'', ''1.0''),
         (''4. close'', ''abc'')])]
   \<and> ''2024-01-02'' \<in> set (sorted_dates_of [(''2024-01-02'',
        [(''1. open'', ''1.0''), (''2. high'', ''1.0''), (''3. low'', ''1.0''),
         (''4. close'', ''abc'')])])
   \<and> spec_malformed (map_of [(''1.0'', 1)]) (map_of [(''5'', 5)])
        [(''2024-01-02'',
        [(''1. open'', ''1.0''), (''2. high'', ''1.0''), (''3. low'', ''1.0''),
         (''4. close'', ''abc'')])] ''2024-01-02''
   \<and> process_stock_data (map_of [(''1.0'', 1)]) (map_of [(''5'', 5)])
        \<lparr>time_series_daily = Some [(''2024-01-02'',
           [(''1. open'', ''1.0''), (''2. high'', ''1.0''), (''3. low'', ''1.0''),
            (''4. close'', ''abc'')])],
         meta_data = Some [(''2. Symbol'', ''IBM''), (''3. Last Refreshed'', ''2024-01-02'')]\<rparr>
       = Inl ValueError"
proof -
  let ?ts = "[(''2024-01-02'',
        [(''1. open'', ''1.0''), (''2. high'', ''1.0''), (''3. low'', ''1.0''),
         (''4. close'', ''abc'')])]"
  let ?data = "\<lparr>time_series_daily = Some ?ts,
      meta_data = Some [(''2. Symbol'', ''IBM''), (''3. Last Refreshed'', ''2024-01-02'')]\<rparr>"
  have ts: "time_series_daily ?data = Some ?ts" by simp
  have sel: "''2024-01-02'' \<in> set (sorted_dates_of ?ts)"
    by (simp add: sorted_dates_of_def)
  have bad: "spec_malformed (map_of [(''1.0'', 1)]) (map_of [(''5'', 5)]) ?ts ''2024-01-02''"
    by (simp add: spec_malformed_def spec_field_ok_def)
  have bw: "build_window (map_of [(''1.0'', 1)]) (map_of [(''5'', 5)]) ?ts = Inl ValueError"
    by (simp add: build_window_def sorted_dates_of_def parse_day_def dict_get_def py_parse_def)
  from malformed_record_fails_request [OF ts sel bad, THEN conjunct1] bw
  have "process_stock_data (map_of [(''1.0'', 1)]) (map_of [(''5'', 5)]) ?data = Inl ValueError"
    by auto
  with ts sel bad show ?thesis by blast
qed

text \<open>
  C3 as stated fails: for an empty dated table the window builder produces empty series,
  but \<^verbatim>\<open>process_stock_data\<close> raises nothing and returns a result bundle.
\<close>

theorem empty_table_no_insufficient_history_counterexample:
  "build_window (map_of []) (map_of []) [] =
     Inr \<lparr>wb_dates = [], wb_prices = [], wb_volumes = [], wb_highs = [], wb_lows = [],
          wb_opens = []\<rparr>
   \<and> process_stock_data (map_of []) (map_of [])
        \<lparr>time_series_daily = Some [],
         meta_data = Some [(''2. Symbol'', ''IBM''), (''3. Last Refreshed'', ''2024-01-02'')]\<rparr> =
       Inr (Some
         \<lparr>out_dates = [], out_prices = [], out_volumes = [],
          out_highs = [], out_lows = [], out_opens = [],
          out_indicators =
            \<lparr>ind_sma_20 = [], ind_sma_50 = [], ind_ema_12 = [],
             ind_ema_26 = [], ind_rsi = [],
             ind_bollinger_upper = [], ind_bollinger_middle = [],
             ind_bollinger_lower = [],
             ind_macd_line = [], ind_macd_signal = [],
             ind_macd_histogram = []\<rparr>,
          out_symbol = ''IBM'',
          out_last_refreshed = ''2024-01-02''\<rparr>)
   \<and> \<not> isl (process_stock_data (map_of []) (map_of [])
        \<lparr>time_series_daily = Some [],
         meta_data = Some [(''2. Symbol'', ''IBM''), (''3. Last Refreshed'', ''2024-01-02'')]\<rparr>)"
  by (simp add: build_window_empty process_stock_data_def compute_indicators_empty
      trim_indicators_empty dict_get_def py_slice_from_def py_slice_def)

text \<open>
  C3, amended. When the dated table is empty, the window builder produces empty series
  and \<^verbatim>\<open>process_stock_data\<close> raises no insufficient-history error: when the
  \<^verbatim>\<open>'Meta Data'\<close> entry holds the symbol and the refresh time it returns a result bundle
  whose date, price, volume, high, low, open and eleven indicator series are all empty,
  and otherwise it fails with \<^verbatim>\<open>KeyError\<close> for the missing metadata.
\<close>

theorem empty_table_returns_empty_bundle:
  assumes "time_series_daily data = Some []"
  shows "build_window to_float to_int [] =
           Inr \<lparr>wb_dates = [], wb_prices = [], wb_volumes = [], wb_highs = [], wb_lows = [],
                wb_opens = []\<rparr>
       \<and> process_stock_data to_float to_int data =
           (case meta_data data of
              None \<Rightarrow> Inl KeyError
            | Some meta \<Rightarrow>
                (case map_of meta ''2. Symbol'' of
                   None \<Rightarrow> Inl KeyError
                 | Some symbol \<Rightarrow>
                     (case map_of meta ''3. Last Refreshed'' of
                        None \<Rightarrow> Inl KeyError
                      | Some last_refreshed \<Rightarrow>
                          Inr (Some
                            \<lparr>out_dates = [], out_prices = [], out_volumes = [],
                             out_highs = [], out_lows = [], out_opens = [],
                             out_indicators =
                               \<lparr>ind_sma_20 = [], ind_sma_50 = [], ind_ema_12 = [],
                                ind_ema_26 = [], ind_rsi = [],
                                ind_bollinger_upper = [], ind_bollinger_middle = [],
                                ind_bollinger_lower = [],
                                ind_macd_line = [], ind_macd_signal = [],
                                ind_macd_histogram = []\<rparr>,
                             out_symbol = symbol,
                             out_last_refreshed = last_refreshed\<rparr>))))"
proof
  show "build_window to_float to_int [] =
           Inr \<lparr>wb_dates = [], wb_prices = [], wb_volumes = [], wb_highs = [], wb_lows = [],
                wb_opens = []\<rparr>"
    by (rule build_window_empty)
next
  show "process_stock_data to_float to_int data =
           (case meta_data data of
              None \<Rightarrow> Inl KeyError
            | Some meta \<Rightarrow>
                (case map_of meta ''2. Symbol'' of
                   None \<Rightarrow> Inl KeyError
                 | Some symbol \<Rightarrow>
                     (case map_of meta ''3. Last Refreshed'' of
                        None \<Rightarrow> Inl KeyError
                      | Some last_refreshed \<Rightarrow>
                          Inr (Some
                            \<lparr>out_dates = [], out_prices = [], out_volumes = [],
                             out_highs = [], out_lows = [], out_opens = [],
                             out_indicators =
                               \<lparr>ind_sma_20 = [], ind_sma_50 = [], ind_ema_12 = [],
                                ind_ema_26 = [], ind_rsi = [],
                                ind_bollinger_upper = [], ind_bollinger_middle = [],
                                ind_bollinger_lower = [],
                                ind_macd_line = [], ind_macd_signal = [],
                                ind_macd_histogram = []\<rparr>,
                             out_symbol = symbol,
                             out_last_refreshed = last_refreshed\<rparr>))))"
    unfolding process_stock_data_def
    by (simp add: assms build_window_empty compute_indicators_empty trim_indicators_empty
        dict_get_def py_slice_from_def py_slice_def split: option.splits)
qed

theorem empty_table_returns_empty_bundle_witness:
  "time_series_daily
     \<lparr>time_series_daily = Some [],
      meta_data = Some [(''2. Symbol'', ''IBM''), (''3. Last Refreshed'', ''2024-01-02'')]\<rparr> = Some []
   \<and> process_stock_data (map_of []) (map_of [])
        \<lparr>time_series_daily = Some [],
         meta_data = Some [(''2. Symbol'', ''IBM''), (''3. Last Refreshed'', ''2024-01-02'')]\<rparr> =
       Inr (Some
         \<lparr>out_dates = [], out_prices = [], out_volumes = [],
          out_highs = [], out_lows = [], out_opens = [],
          out_indicators =
            \<lparr>ind_sma_20 = [], ind_sma_50 = [], ind_ema_12 = [],
             ind_ema_26 = [], ind_rsi = [],
             ind_bollinger_upper = [], ind_bollinger_middle = [],
             ind_bollinger_lower = [],
             ind_macd_line = [], ind_macd_signal = [],
             ind_macd_histogram = []\<rparr>,
          out_symbol = ''IBM'',
          out_last_refreshed = ''2024-01-02''\<rparr>)"
  using empty_table_returns_empty_bundle
    [of "\<lparr>time_series_daily = Some [],
      meta_data = Some [(''2. Symbol'', ''IBM''), (''3. Last Refreshed'', ''2024-01-02'')]\<rparr>"
      "map_of []" "map_of []"]
  by simp

text \<open>
  C5. When the window builder returns a window of length \<open>L\<close> and the metadata holds
  the symbol and the refresh time, \<^verbatim>\<open>process_stock_data\<close> returns a bundle in which
  each of the 17 series (dates, prices, volumes, highs, lows, opens and the eleven
  indicator series) is the full-length series with the same first
  \<open>k = L - min 30 L\<close> entries dropped, so every series has length \<open>min 30 L\<close>; the full
  series all have length \<open>L = min 60 (number of dates)\<close>.
\<close>

theorem output_series_aligned:
  assumes ts: "time_series_daily data = Some ts"
    and bw: "build_window to_float to_int ts = Inr w"
    and md: "meta_data data = Some meta"
    and sy: "map_of meta ''2. Symbol'' = Some symbol"
    and lr: "map_of meta ''3. Last Refreshed'' = Some last_refreshed"
  shows "\<exists>b ind k.
           process_stock_data to_float to_int data = Inr (Some b)
         \<and> compute_indicators (wb_prices w) = Inr ind
         \<and> k = length (wb_dates w) - min 30 (length (wb_dates w))
         \<and> length (wb_dates w) = min 60 (length ts)
         \<and> length (series_lengths b) = 17
         \<and> (\<forall>n\<in>set (series_lengths b). n = min 30 (length (wb_dates w)))
         \<and> out_dates b = drop k (wb_dates w)
         \<and> out_prices b = drop k (wb_prices w)
         \<and> out_volumes b = drop k (wb_volumes w)
         \<and> out_highs b = drop k (wb_highs w)
         \<and> out_lows b = drop k (wb_lows w)
         \<and> out_opens b = drop k (wb_opens w)
         \<and> indicator_series (out_indicators b) = map (drop k) (indicator_series ind)
         \<and> (\<forall>s\<in>set (indicator_series ind). length s = length (wb_dates w))
         \<and> length (wb_prices w) = length (wb_dates w)
         \<and> length (wb_volumes w) = length (wb_dates w)
         \<and> length (wb_highs w) = length (wb_dates w)
         \<and> length (wb_lows w) = length (wb_dates w)
         \<and> length (wb_opens w) = length (wb_dates w)"
proof -
  define L where "L = length (wb_dates w)"
  define k where "k = L - min 30 L"
  from build_window_ok [OF bw]
  have lens: "length (wb_prices w) = L" "length (wb_volumes w) = L" "length (wb_highs w) = L"
    "length (wb_lows w) = L" "length (wb_opens w) = L" and L60: "L = min 60 (length ts)"
    by (simp_all add: L_def length_sorted_dates_of)
  obtain ind where ci: "compute_indicators (wb_prices w) = Inr ind"
    and il: "\<forall>s\<in>set (indicator_series ind). length s = L"
    using compute_indicators_total [of "wb_prices w"] lens(1) by auto
  define b where "b = \<lparr>out_dates = drop k (wb_dates w),
                out_prices = drop k (wb_prices w),
                out_volumes = drop k (wb_volumes w),
                out_highs = drop k (wb_highs w),
                out_lows = drop k (wb_lows w),
                out_opens = drop k (wb_opens w),
                out_indicators = trim_indicators (int k) ind,
                out_symbol = symbol,
                out_last_refreshed = last_refreshed\<rparr>"
  have res: "process_stock_data to_float to_int data = Inr (Some b)"
    unfolding b_def
    by (rule process_stock_data_returns [OF ts bw ci md sy lr]) (simp add: k_def L_def)
  have Lk: "L - k = min 30 L" by (simp add: k_def min_def)
  have is': "indicator_series (out_indicators b) = map (drop k) (indicator_series ind)"
    by (simp add: b_def trim_indicators_drop)
  have "\<forall>n\<in>set (map length (indicator_series (out_indicators b))). n = min 30 L"
    unfolding is' using il Lk by auto
  then have all: "\<forall>n\<in>set (series_lengths b). n = min 30 L"
    using lens Lk by (auto simp: series_lengths_def b_def L_def)
  have cnt: "length (series_lengths b) = 17"
    by (simp add: series_lengths_def indicator_series_def)
  have sel: "out_dates b = drop k (wb_dates w)" "out_prices b = drop k (wb_prices w)"
    "out_volumes b = drop k (wb_volumes w)" "out_highs b = drop k (wb_highs w)"
    "out_lows b = drop k (wb_lows w)" "out_opens b = drop k (wb_opens w)"
    by (simp_all add: b_def)
  show ?thesis
    using res ci k_def L60 cnt all sel is' il lens unfolding L_def by blast
qed

theorem output_series_aligned_witness:
  "time_series_daily
     \<lparr>time_series_daily = Some [(''2024-01-02'',
        [(''1. open'', ''1.0''), (''2. high'', ''1.0''), (''3. low'', ''1.0''),
         (''4. close'', ''1.0''), (''5. volume'', ''5'')])],
      meta_data = Some [(''2. Symbol'', ''IBM''), (''3. Last Refreshed'', ''2024-01-02'')]\<rparr>
     = Some [(''2024-01-02'',
        [(''1. open'', ''1.0''), (''2. high'', ''1.0''), (''3. low'', ''1.0''),
         (''4. close'', ''1.0''), (''5. volume'', ''5'')])]
   \<and> build_window (map_of [(''1.0'', 1)]) (map_of [(''5'', 5)])
       [(''2024-01-02'',
        [(''1. open'', ''1.0''), (''2. high'', ''1.0''), (''3. low'', ''1.0''),
         (''4. close'', ''1.0''), (''5. volume'', ''5'')])]
     = Inr \<lparr>wb_dates = [''2024-01-02''], wb_prices = [1], wb_volumes = [5], wb_highs = [1],
            wb_lows = [1], wb_opens = [1]\<rparr>
   \<and> (\<exists>b. process_stock_data (map_of [(''1.0'', 1)]) (map_of [(''5'', 5)])
          \<lparr>time_series_daily = Some [(''2024-01-02'',
             [(''1. open'', ''1.0''), (''2. high'', ''1.0''), (''3. low'', ''1.0''),
              (''4. close'', ''1.0''), (''5. volume'', ''5'')])],
           meta_data = Some [(''2. Symbol'', ''IBM''), (''3. Last Refreshed'', ''2024-01-02'')]\<rparr>
          = Inr (Some b)
        \<and> out_dates b = [''2024-01-02''] \<and> out_prices b = [1]
        \<and> length (series_lengths b) = 17
        \<and> (\<forall>n\<in>set (series_lengths b). n = 1))"
proof -
  let ?ts = "[(''2024-01-02'',
        [(''1. open'', ''1.0''), (''2. high'', ''1.0''), (''3. low'', ''1.0''),
         (''4. close'', ''1.0''), (''5. volume'', ''5'')])]"
  let ?meta = "[(''2. Symbol'', ''IBM''), (''3. Last Refreshed'', ''2024-01-02'')]"
  let ?data = "\<lparr>time_series_daily = Some ?ts, meta_data = Some ?meta\<rparr>"
  let ?w = "\<lparr>wb_dates = [''2024-01-02''], wb_prices = [1::real], wb_volumes = [5::int],
             wb_highs = [1::real], wb_lows = [1::real], wb_opens = [1::real]\<rparr>"
  have ts: "time_series_daily ?data = Some ?ts" by simp
  have bw: "build_window (map_of [(''1.0'', 1)]) (map_of [(''5'', 5)]) ?ts = Inr ?w"
    by (simp add: build_window_def sorted_dates_of_def parse_day_def dict_get_def py_parse_def)
  have md: "meta_data ?data = Some ?meta" by simp
  have sy: "map_of ?meta ''2. Symbol'' = Some ''IBM''" by simp
  have lr: "map_of ?meta ''3. Last Refreshed'' = Some ''2024-01-02''" by simp
  from output_series_aligned [OF ts bw md sy lr]
  obtain b where "process_stock_data (map_of [(''1.0'', 1)]) (map_of [(''5'', 5)]) ?data = Inr (Some b)"
    and "length (series_lengths b) = 17"
    and "\<forall>n\<in>set (series_lengths b). n = min 30 (length (wb_dates ?w))"
    and "out_dates b = drop (length (wb_dates ?w) - min 30 (length (wb_dates ?w))) (wb_dates ?w)"
    and "out_prices b = drop (length (wb_dates ?w) - min 30 (length (wb_dates ?w))) (wb_prices ?w)"
    by blast
  then have "\<exists>b. process_stock_data (map_of [(''1.0'', 1)]) (map_of [(''5'', 5)]) ?data = Inr (Some b)
        \<and> out_dates b = [''2024-01-02''] \<and> out_prices b = [1]
        \<and> length (series_lengths b) = 17
        \<and> (\<forall>n\<in>set (series_lengths b). n = 1)"
    by simp
  with ts bw show ?thesis by blast
qed

end
